theory Spec2Isabelle
  imports Main "HOL-Library.Sublist"
begin

section \<open>Python string operations used by the issue wizard\<close>

text \<open>
  A Python \<open>str\<close> is modelled as a \<open>string\<close> whose characters are the code points
  0..255. The operations below are the ones \<^verbatim>\<open>issue_wizard.py\<close> calls:
  \<^verbatim>\<open>str.startswith\<close>, the substring test \<^verbatim>\<open>p in s\<close>, \<^verbatim>\<open>str.strip\<close>, \<^verbatim>\<open>str.lower\<close>,
  \<^verbatim>\<open>str.split(",")\<close> and \<^verbatim>\<open>int(s)\<close>.
\<close>

definition startswith :: "string \<Rightarrow> string \<Rightarrow> bool" where
  "startswith s p = (take (length p) s = p)"

fun py_in :: "string \<Rightarrow> string \<Rightarrow> bool" where
  "py_in p [] = (p = [])"
| "py_in p (c # cs) = (startswith (c # cs) p \<or> py_in p cs)"

text \<open>\<^verbatim>\<open>str.isspace\<close> on one character: TAB..CR, FS..US, space, NEL and NBSP.\<close>

definition isspace :: "char \<Rightarrow> bool" where
  "isspace c = (let n = (of_char c :: nat) in
     (9 \<le> n \<and> n \<le> 13) \<or> (28 \<le> n \<and> n \<le> 32) \<or> n = 133 \<or> n = 160)"

definition strip :: "string \<Rightarrow> string" where
  "strip s = rev (dropWhile isspace (rev (dropWhile isspace s)))"

definition lower_char :: "char \<Rightarrow> char" where
  "lower_char c = (let n = (of_char c :: nat) in
     if (65 \<le> n \<and> n \<le> 90) \<or> (192 \<le> n \<and> n \<le> 222 \<and> n \<noteq> 215)
     then char_of (n + 32) else c)"

definition lower :: "string \<Rightarrow> string" where
  "lower s = map lower_char s"

text \<open>\<^verbatim>\<open>s.split(sep)\<close> for a one-character separator; \<^verbatim>\<open>"".split(",")\<close> is \<^verbatim>\<open>[""]\<close>.\<close>

fun split :: "char \<Rightarrow> string \<Rightarrow> string list" where
  "split sep [] = [[]]"
| "split sep (c # cs) =
     (if c = sep then [] # split sep cs
      else (case split sep cs of [] \<Rightarrow> [[c]] | t # ts \<Rightarrow> (c # t) # ts))"

text \<open>
  \<^verbatim>\<open>int(s)\<close> in base 10. The whitespace it skips around the number is narrower than
  \<^verbatim>\<open>str.isspace\<close> (FS..US are not skipped). After an optional sign come decimal digits,
  where single underscores may separate digits. More than \<open>max_str_digits\<close> digits raise
  \<^verbatim>\<open>ValueError\<close> like any malformed text. \<open>None\<close> stands for \<^verbatim>\<open>ValueError\<close>.
\<close>

definition int_space :: "char \<Rightarrow> bool" where
  "int_space c = (let n = (of_char c :: nat) in
     (9 \<le> n \<and> n \<le> 13) \<or> n = 32 \<or> n = 133 \<or> n = 160)"

definition digit_val :: "char \<Rightarrow> nat option" where
  "digit_val c = (let n = (of_char c :: nat) in
     if 48 \<le> n \<and> n \<le> 57 then Some (n - 48) else None)"

definition max_str_digits :: nat where
  "max_str_digits = 4300"

fun scan_digits :: "string \<Rightarrow> bool \<Rightarrow> nat \<Rightarrow> nat \<Rightarrow> (nat \<times> nat) option" where
  "scan_digits [] prev_us acc cnt = (if prev_us then None else Some (acc, cnt))"
| "scan_digits (c # cs) prev_us acc cnt =
     (if c = CHR ''_'' then (if prev_us then None else scan_digits cs True acc cnt)
      else (case digit_val c of
              None \<Rightarrow> None
            | Some d \<Rightarrow> scan_digits cs False (10 * acc + d) (Suc cnt)))"

definition py_int :: "string \<Rightarrow> int option" where
  "py_int s =
     (let t = rev (dropWhile int_space (rev (dropWhile int_space s)));
          neg = (case t of c # cs \<Rightarrow> c = CHR ''-'' | [] \<Rightarrow> False);
          body = (case t of c # cs \<Rightarrow> if c = CHR ''+'' \<or> c = CHR ''-'' then cs else t | [] \<Rightarrow> t)
      in case body of
           [] \<Rightarrow> None
         | b # bs \<Rightarrow>
             if b = CHR ''_'' then None
             else (case scan_digits body False 0 0 of
                     None \<Rightarrow> None
                   | Some (v, cnt) \<Rightarrow>
                       if max_str_digits < cnt then None
                       else Some (if neg then - int v else int v)))"

section \<open>Exceptions and decoded JSON\<close>

datatype exn =
    FileNotFoundError
  | IsADirectoryError
  | NotADirectoryError
  | PermissionError
  | UnicodeDecodeError
  | JSONDecodeError
  | ValueError
  | RecursionError
  | KeyError string
  | TypeError
  | AttributeError
  | EOFError
  | CalledProcessError int
  | SystemExit int

text \<open>
  The value \<^verbatim>\<open>json.load\<close> returns. Numbers carry no payload the program looks at, an
  object is the list of its items in insertion order (keys distinct, as in a \<^verbatim>\<open>dict\<close>).
\<close>

datatype json =
    JNull
  | JBool bool
  | JNum int
  | JStr string
  | JArr "json list"
  | JObj "(string \<times> json) list"

text \<open>\<^verbatim>\<open>item[key]\<close> with a string key.\<close>

fun subscript :: "json \<Rightarrow> string \<Rightarrow> exn + json" where
  "subscript (JObj kvs) key =
     (case map_of kvs key of None \<Rightarrow> Inl (KeyError key) | Some v \<Rightarrow> Inr v)"
| "subscript other key = Inl TypeError"

text \<open>The items \<^verbatim>\<open>for item in data\<close> visits; numbers, booleans and null are not iterable.\<close>

fun iterate :: "json \<Rightarrow> exn + json list" where
  "iterate (JArr xs) = Inr xs"
| "iterate (JObj kvs) = Inr (map (\<lambda>kv. JStr (fst kv)) kvs)"
| "iterate (JStr s) = Inr (map (\<lambda>c. JStr [c]) s)"
| "iterate other = Inl TypeError"

section \<open>Labels and the label registry\<close>

datatype LabelCategory = TYPE' | AREA | PRIORITY | SIZE | FLAG

text \<open>
  The dataclass annotates \<open>color\<close> and \<open>description\<close> as \<^verbatim>\<open>str\<close>, but nothing checks
  it: whatever \<^verbatim>\<open>item["color"]\<close> holds is stored. Only \<open>name\<close> is used as a string.
\<close>

record Label =
  name :: string
  color :: json
  description :: json
  category :: LabelCategory

record LabelRegistry =
  labels :: "Label list"

text \<open>
  \<^verbatim>\<open>LabelRegistry._classify_label\<close>. \<^verbatim>\<open>name.startswith\<close> on a value that is not a string
  raises \<^verbatim>\<open>AttributeError\<close>; the lookups of \<^verbatim>\<open>color\<close> and \<^verbatim>\<open>description\<close> happen after
  the category is chosen.
\<close>

definition classify_label :: "json \<Rightarrow> exn + Label" where
  "classify_label item =
     (case subscript item ''name'' of
        Inl e \<Rightarrow> Inl e
      | Inr v \<Rightarrow>
          (case v of
             JStr nm \<Rightarrow>
               (let cat =
                  (if startswith nm ''lsp/'' then AREA
                   else if startswith nm ''size/'' then SIZE
                   else if startswith nm ''P'' \<and>
                           list_ex (\<lambda>p. py_in p nm) [''-critical'', ''-must'', ''-should'', ''-nice'']
                        then PRIORITY
                   else if nm \<in> set [''bug'', ''enhancement'', ''documentation'',
                                      ''architecture'', ''tech-debt'']
                        then TYPE'
                   else FLAG)
                in case subscript item ''color'' of
                     Inl e \<Rightarrow> Inl e
                   | Inr c \<Rightarrow>
                       (case subscript item ''description'' of
                          Inl e \<Rightarrow> Inl e
                        | Inr d \<Rightarrow>
                            Inr \<lparr>name = nm, color = c, description = d, category = cat\<rparr>))
           | _ \<Rightarrow> Inl AttributeError))"

text \<open>The loop of \<^verbatim>\<open>_load_labels\<close>: classify each item and append it to \<open>self.labels\<close>.\<close>

fun append_all :: "json list \<Rightarrow> Label list \<Rightarrow> exn + Label list" where
  "append_all [] ls = Inr ls"
| "append_all (item # rest) ls =
     (case classify_label item of
        Inl e \<Rightarrow> Inl e
      | Inr l \<Rightarrow> append_all rest (ls @ [l]))"

text \<open>
  What \<^verbatim>\<open>open(json_path)\<close> followed by \<^verbatim>\<open>json.load\<close> does for a path: one of the two
  raises an exception, or the text decodes to a value. Besides \<^verbatim>\<open>FileNotFoundError\<close> and
  \<^verbatim>\<open>JSONDecodeError\<close> these calls raise, among others, \<^verbatim>\<open>IsADirectoryError\<close>,
  \<^verbatim>\<open>NotADirectoryError\<close> and \<^verbatim>\<open>PermissionError\<close> (the path), \<^verbatim>\<open>UnicodeDecodeError\<close>
  (bytes that are not text), \<^verbatim>\<open>ValueError\<close> (a number with too many digits) and
  \<^verbatim>\<open>RecursionError\<close> (nesting too deep).
\<close>

datatype source = Raises exn | Decoded json

text \<open>The body of the \<^verbatim>\<open>try\<close> block of \<^verbatim>\<open>_load_labels\<close>.\<close>

definition read_labels :: "(string \<Rightarrow> source) \<Rightarrow> string \<Rightarrow> exn + LabelRegistry" where
  "read_labels fs json_path =
     (case fs json_path of
        Raises e \<Rightarrow> Inl e
      | Decoded data \<Rightarrow>
          (case iterate data of
             Inl e \<Rightarrow> Inl e
           | Inr items \<Rightarrow>
               (case append_all items [] of
                  Inl e \<Rightarrow> Inl e
                | Inr ls \<Rightarrow> Inr \<lparr>labels = ls\<rparr>)))"

text \<open>
  \<^verbatim>\<open>LabelRegistry.__init__\<close> with \<^verbatim>\<open>_load_labels\<close>. A failure carries the lines the program
  printed before it stopped and the exception that ended it. The two \<^verbatim>\<open>except\<close> clauses
  print a message and call \<^verbatim>\<open>sys.exit(1)\<close>; every other exception leaves the constructor
  unhandled, with nothing printed by the program.
\<close>

definition load_labels :: "(string \<Rightarrow> source) \<Rightarrow> string \<Rightarrow> (string list \<times> exn) + LabelRegistry" where
  "load_labels fs json_path =
     (case read_labels fs json_path of
        Inr reg \<Rightarrow> Inr reg
      | Inl e \<Rightarrow>
          (case e of
             FileNotFoundError \<Rightarrow>
               Inl ([''Error: Labels file not found at '' @ json_path], SystemExit 1)
           | JSONDecodeError \<Rightarrow>
               Inl ([''Error: Invalid JSON in '' @ json_path], SystemExit 1)
           | _ \<Rightarrow> Inl ([], e)))"

definition get_by_category :: "LabelRegistry \<Rightarrow> LabelCategory \<Rightarrow> Label list" where
  "get_by_category reg c = [l \<leftarrow> labels reg. category l = c]"

section \<open>The wizard\<close>

text \<open>
  Standard input is a sequence of lines: \<open>inp k\<close> is the line the \<open>k\<close>-th call of
  \<^verbatim>\<open>input()\<close> returns, \<open>None\<close> when the input has ended (\<^verbatim>\<open>EOFError\<close>). A loop that reads
  until it gets a good line may never return, so the loops are partial functions whose value
  \<open>None\<close> means that the loop runs forever. Printing is not modelled.
\<close>

partial_function (option) title_loop ::
  "(nat \<Rightarrow> string option) \<Rightarrow> nat \<Rightarrow> string \<Rightarrow> (exn + nat \<times> string) option" where
  "title_loop inp k t =
     (if t \<noteq> [] then Some (Inr (k, t))
      else (case inp k of
              None \<Rightarrow> Some (Inl EOFError)
            | Some line \<Rightarrow> title_loop inp (Suc k) (strip line)))"

text \<open>The \<^verbatim>\<open>while True\<close> loop of \<^verbatim>\<open>_select_single\<close>.\<close>

partial_function (option) select_single_loop ::
  "Label list \<Rightarrow> (nat \<Rightarrow> string option) \<Rightarrow> nat \<Rightarrow> string list
     \<Rightarrow> (exn + nat \<times> string list) option" where
  "select_single_loop opts inp k sel =
     (case inp k of
        None \<Rightarrow> Some (Inl EOFError)
      | Some user_input \<Rightarrow>
          (case py_int user_input of
             None \<Rightarrow> select_single_loop opts inp (Suc k) sel
           | Some choice \<Rightarrow>
               if 1 \<le> choice \<and> choice \<le> int (length opts)
               then Some (Inr (Suc k, sel @ [name (opts ! nat (choice - 1))]))
               else select_single_loop opts inp (Suc k) sel))"

text \<open>The \<^verbatim>\<open>for idx in indices\<close> loop of \<^verbatim>\<open>_select_multiple\<close>.\<close>

fun collect :: "Label list \<Rightarrow> int list \<Rightarrow> bool \<Rightarrow> string list \<Rightarrow> bool \<times> string list" where
  "collect opts [] valid temp_selected = (valid, temp_selected)"
| "collect opts (idx # rest) valid temp_selected =
     (if 1 \<le> idx \<and> idx \<le> int (length opts)
      then collect opts rest valid (temp_selected @ [name (opts ! nat (idx - 1))])
      else collect opts rest False temp_selected)"

text \<open>The \<^verbatim>\<open>while True\<close> loop of \<^verbatim>\<open>_select_multiple\<close>.\<close>

partial_function (option) select_multiple_loop ::
  "Label list \<Rightarrow> (nat \<Rightarrow> string option) \<Rightarrow> nat \<Rightarrow> string list
     \<Rightarrow> (exn + nat \<times> string list) option" where
  "select_multiple_loop opts inp k sel =
     (case inp k of
        None \<Rightarrow> Some (Inl EOFError)
      | Some line \<Rightarrow>
          if strip line = [] then Some (Inr (Suc k, sel))
          else (case those (map (\<lambda>c. py_int (strip c)) (split CHR '','' (strip line))) of
                  None \<Rightarrow> select_multiple_loop opts inp (Suc k) sel
                | Some indices \<Rightarrow>
                    if fst (collect opts indices True [])
                    then Some (Inr (Suc k, sel @ snd (collect opts indices True [])))
                    else select_multiple_loop opts inp (Suc k) sel))"

text \<open>\<^verbatim>\<open>_confirm\<close>: one call of \<^verbatim>\<open>input()\<close>, lowercased, tested for a leading \<^verbatim>\<open>y\<close>.\<close>

definition confirm :: "(nat \<Rightarrow> string option) \<Rightarrow> nat \<Rightarrow> exn + bool \<times> nat" where
  "confirm inp k =
     (case inp k of
        None \<Rightarrow> Inl EOFError
      | Some line \<Rightarrow> Inr (startswith (lower line) ''y'', Suc k))"

subsection \<open>The world outside the process\<close>

text \<open>
  Starting a child process and waiting for it: it exits with a status, or \<^verbatim>\<open>subprocess.run\<close>
  raises (\<^verbatim>\<open>FileNotFoundError\<close> when there is no such program, \<^verbatim>\<open>PermissionError\<close> when it
  may not be executed).
\<close>

datatype proc_result = Exited int | Raised exn

datatype event = Created string | Spawned "string list" | Unlinked string

text \<open>
  \<open>files\<close> is the set of paths that exist, \<open>undeletable\<close> the paths on which
  \<^verbatim>\<open>os.unlink\<close> fails, \<open>tempname\<close> the name \<^verbatim>\<open>NamedTemporaryFile\<close> will choose, \<open>spawn\<close> what
  running a command line gives, and \<open>trace\<close> the file and process operations attempted so
  far. Child processes are taken to leave \<open>files\<close> alone.
\<close>

record world =
  stdin :: "nat \<Rightarrow> string option"
  cursor :: nat
  files :: "string set"
  undeletable :: "string set"
  EDITOR :: "string option"
  tempname :: string
  spawn :: "string list \<Rightarrow> proc_result"
  trace :: "event list"

record IssueWizard =
  registry :: LabelRegistry
  selected_labels :: "string list"
  title :: string
  body_file :: string

definition IssueWizard_init :: "LabelRegistry \<Rightarrow> IssueWizard" where
  "IssueWizard_init reg = \<lparr>registry = reg, selected_labels = [], title = [], body_file = []\<rparr>"

text \<open>How a step ends: it falls through to the next statement, or the run is over.\<close>

datatype status = Continue | Submitted | SubmissionFailed | Cancelled | Died exn

type_synonym step = "world \<times> IssueWizard \<Rightarrow> (status \<times> world \<times> IssueWizard) option"

definition seq :: "step \<Rightarrow> step \<Rightarrow> step" where
  "seq f g s =
     (case f s of
        None \<Rightarrow> None
      | Some (st, s') \<Rightarrow> if st = Continue then g s' else Some (st, s'))"

text \<open>\<^verbatim>\<open>subprocess.run(argv, check=True)\<close>.\<close>

definition subprocess_run :: "string list \<Rightarrow> world \<Rightarrow> exn option \<times> world" where
  "subprocess_run argv w =
     (let w' = w\<lparr>trace := trace w @ [Spawned argv]\<rparr>
      in case spawn w argv of
           Raised e \<Rightarrow> (Some e, w')
         | Exited rc \<Rightarrow> (if rc = 0 then None else Some (CalledProcessError rc), w'))"

text \<open>
  \<^verbatim>\<open>try: os.unlink(p) except OSError: pass\<close>. The attempt is recorded; a failing
  \<^verbatim>\<open>os.unlink\<close> raises an \<^verbatim>\<open>OSError\<close> that is swallowed and leaves the files as they are.
\<close>

definition unlink_quietly :: "string \<Rightarrow> world \<Rightarrow> world" where
  "unlink_quietly p w =
     w\<lparr>files := (if p \<in> undeletable w then files w else files w - {p}),
       trace := trace w @ [Unlinked p]\<rparr>"

definition capture_title :: step where
  "capture_title = (\<lambda>(w, z).
     case title_loop (stdin w) (cursor w) (title z) of
       None \<Rightarrow> None
     | Some (Inl e) \<Rightarrow> Some (Died e, w, z)
     | Some (Inr (k', t)) \<Rightarrow> Some (Continue, w\<lparr>cursor := k'\<rparr>, z\<lparr>title := t\<rparr>))"

definition select_single :: "LabelCategory \<Rightarrow> step" where
  "select_single c = (\<lambda>(w, z).
     case select_single_loop (get_by_category (registry z) c) (stdin w) (cursor w)
            (selected_labels z) of
       None \<Rightarrow> None
     | Some (Inl e) \<Rightarrow> Some (Died e, w, z)
     | Some (Inr (k', sel')) \<Rightarrow>
         Some (Continue, w\<lparr>cursor := k'\<rparr>, z\<lparr>selected_labels := sel'\<rparr>))"

definition select_multiple :: "LabelCategory \<Rightarrow> step" where
  "select_multiple c = (\<lambda>(w, z).
     case select_multiple_loop (get_by_category (registry z) c) (stdin w) (cursor w)
            (selected_labels z) of
       None \<Rightarrow> None
     | Some (Inl e) \<Rightarrow> Some (Died e, w, z)
     | Some (Inr (k', sel')) \<Rightarrow>
         Some (Continue, w\<lparr>cursor := k'\<rparr>, z\<lparr>selected_labels := sel'\<rparr>))"

text \<open>Step 6 of \<^verbatim>\<open>run\<close>: the flags are asked for only after an affirmative answer.\<close>

definition optional_flags :: step where
  "optional_flags = (\<lambda>(w, z).
     case confirm (stdin w) (cursor w) of
       Inl e \<Rightarrow> Some (Died e, w, z)
     | Inr (yes, k') \<Rightarrow>
         if yes then select_multiple FLAG (w\<lparr>cursor := k'\<rparr>, z)
         else Some (Continue, w\<lparr>cursor := k'\<rparr>, z))"

text \<open>\<^verbatim>\<open>_create_body\<close>.\<close>

definition create_body :: step where
  "create_body = (\<lambda>(w, z).
     let w1 = w\<lparr>files := insert (tempname w) (files w),
                 trace := trace w @ [Created (tempname w)]\<rparr>;
         z1 = z\<lparr>body_file := tempname w\<rparr>;
         editor = (case EDITOR w1 of None \<Rightarrow> ''nano'' | Some e \<Rightarrow> e);
         r = subprocess_run [editor, body_file z1] w1
     in case fst r of
          None \<Rightarrow> Some (Continue, snd r, z1)
        | Some e \<Rightarrow>
            (case e of
               FileNotFoundError \<Rightarrow>
                 Some (Died (SystemExit 1), unlink_quietly (body_file z1) (snd r), z1)
             | CalledProcessError rc \<Rightarrow>
                 Some (Died (SystemExit 1), unlink_quietly (body_file z1) (snd r), z1)
             | _ \<Rightarrow> Some (Died e, snd r, z1)))"

text \<open>\<^verbatim>\<open>_submit\<close>.\<close>

definition submit :: step where
  "submit = (\<lambda>(w, z).
     case confirm (stdin w) (cursor w) of
       Inl e \<Rightarrow> Some (Died e, w, z)
     | Inr (yes, k') \<Rightarrow>
         if yes then
           (let cmd = [''gh'', ''issue'', ''create'', ''--title'', title z,
                       ''--body-file'', body_file z]
                      @ concat (map (\<lambda>l. [''--label'', l]) (selected_labels z));
                r = subprocess_run cmd (w\<lparr>cursor := k'\<rparr>)
            in case fst r of
                 None \<Rightarrow> Some (Submitted, unlink_quietly (body_file z) (snd r), z)
               | Some e \<Rightarrow>
                   (case e of
                      CalledProcessError rc \<Rightarrow> Some (SubmissionFailed, snd r, z)
                    | _ \<Rightarrow> Some (Died e, snd r, z)))
         else Some (Cancelled, unlink_quietly (body_file z) (w\<lparr>cursor := k'\<rparr>), z))"

text \<open>\<^verbatim>\<open>IssueWizard.run\<close>: the eight steps in their fixed order.\<close>

definition run :: step where
  "run =
     seq capture_title
    (seq (select_single TYPE')
    (seq (select_multiple AREA)
    (seq (select_single PRIORITY)
    (seq (select_single SIZE)
    (seq optional_flags
    (seq create_body submit))))))"

section \<open>Sample data\<close>

text \<open>The label records of \<^verbatim>\<open>test_issue_wizard.py\<close>, as \<^verbatim>\<open>json.load\<close> returns them.\<close>

definition test_labels :: json where
  "test_labels = JArr
     [JObj [(''name'', JStr ''bug''), (''color'', JStr ''d73a49''),
            (''description'', JStr ''Something isn't working'')],
      JObj [(''name'', JStr ''lsp/completion''), (''color'', JStr ''c2e0c6''),
            (''description'', JStr ''Completion features'')],
      JObj [(''name'', JStr ''P1-must''), (''color'', JStr ''d93f0b''),
            (''description'', JStr ''Must fix'')],
      JObj [(''name'', JStr ''size/S''), (''color'', JStr ''bfd4f2''),
            (''description'', JStr ''Small'')],
      JObj [(''name'', JStr ''good-first-issue''), (''color'', JStr ''7057ff''),
            (''description'', JStr ''Good for newcomers'')]]"

definition test_registry :: LabelRegistry where
  "test_registry = \<lparr>labels =
     [\<lparr>name = ''bug'', color = JStr ''d73a49'',
       description = JStr ''Something isn't working'', category = TYPE'\<rparr>,
      \<lparr>name = ''lsp/completion'', color = JStr ''c2e0c6'',
       description = JStr ''Completion features'', category = AREA\<rparr>,
      \<lparr>name = ''P1-must'', color = JStr ''d93f0b'',
       description = JStr ''Must fix'', category = PRIORITY\<rparr>,
      \<lparr>name = ''size/S'', color = JStr ''bfd4f2'',
       description = JStr ''Small'', category = SIZE\<rparr>,
      \<lparr>name = ''good-first-issue'', color = JStr ''7057ff'',
       description = JStr ''Good for newcomers'', category = FLAG\<rparr>]\<rparr>"

definition sample_options :: "Label list" where
  "sample_options =
     [\<lparr>name = ''lsp/completion'', color = JStr ''c2e0c6'',
       description = JStr ''Completion features'', category = AREA\<rparr>,
      \<lparr>name = ''lsp/hover'', color = JStr ''c2e0c6'',
       description = JStr ''Hover'', category = AREA\<rparr>,
      \<lparr>name = ''lsp/rename'', color = JStr ''c2e0c6'',
       description = JStr ''Rename'', category = AREA\<rparr>]"

text \<open>A finite script of input lines, followed by the end of input.\<close>

definition script :: "string list \<Rightarrow> nat \<Rightarrow> string option" where
  "script ls k = (if k < length ls then Some (ls ! k) else None)"

text \<open>
  The wizard \<open>z'\<close> has the registry of \<open>z\<close>, and its selected labels are those of \<open>z\<close>
  followed by names of labels of that registry.
\<close>

abbreviation grows :: "IssueWizard \<Rightarrow> IssueWizard \<Rightarrow> bool" where
  "grows z z' \<equiv> registry z' = registry z \<and>
     (\<exists>added. selected_labels z' = selected_labels z @ added \<and>
        set added \<subseteq> name ` set (labels (registry z)))"

text \<open>
  A world for sample sessions: the given input lines, no files, \<open>EDITOR=vim\<close>, and child
  processes that end as given (the issue-tracker client is the command starting with \<open>gh\<close>).
\<close>

definition demo_world :: "proc_result \<Rightarrow> proc_result \<Rightarrow> string list \<Rightarrow> world" where
  "demo_world editor_result gh_result lines =
     \<lparr>stdin = script lines, cursor = 0, files = {}, undeletable = {}, EDITOR = Some ''vim'',
      tempname = ''/tmp/tmpk3v9.md'',
      spawn = (\<lambda>argv. if take 1 argv = [''gh''] then gh_result else editor_result),
      trace = []\<rparr>"

text \<open>What can be observed of the result of a run.\<close>

definition ending :: "(status \<times> world \<times> IssueWizard) option \<Rightarrow> status option" where
  "ending r = map_option fst r"

definition body_file_exists :: "(status \<times> world \<times> IssueWizard) option \<Rightarrow> bool" where
  "body_file_exists r =
     (case r of None \<Rightarrow> False | Some (st, w, z) \<Rightarrow> body_file z \<in> files w)"

definition events :: "(status \<times> world \<times> IssueWizard) option \<Rightarrow> event list" where
  "events r = (case r of None \<Rightarrow> [] | Some (st, w, z) \<Rightarrow> trace w)"

definition chosen :: "(status \<times> world \<times> IssueWizard) option \<Rightarrow> string list" where
  "chosen r = (case r of None \<Rightarrow> [] | Some (st, w, z) \<Rightarrow> selected_labels z)"

text \<open>A wizard in the middle of a run, over a registry of three area labels.\<close>

definition sample_wizard :: IssueWizard where
  "sample_wizard =
     \<lparr>registry = \<lparr>labels = sample_options\<rparr>, selected_labels = [''bug''],
      title = ''Crash on hover'', body_file = []\<rparr>"

section \<open>String operations against their library counterparts\<close>

lemma startswith_prefix: "startswith s p \<longleftrightarrow> prefix p s"
  unfolding startswith_def prefix_def
  by (metis append_eq_conv_conj append_take_drop_id)

lemma py_in_sublist: "py_in p s \<longleftrightarrow> sublist p s"
  by (induction s) (simp_all add: startswith_prefix sublist_Cons_right)

lemma lower_char_y: "lower_char c = CHR ''y'' \<longleftrightarrow> c = CHR ''y'' \<or> c = CHR ''Y''"
proof -
  have y: "c = CHR ''y'' \<longleftrightarrow> (of_char c :: nat) = 121"
    using of_char_eq_iff [of c "CHR ''y''", where ?'a = nat] by simp
  have Y: "c = CHR ''Y'' \<longleftrightarrow> (of_char c :: nat) = 89"
    using of_char_eq_iff [of c "CHR ''Y''", where ?'a = nat] by simp
  have "lower_char c = CHR ''y'' \<longleftrightarrow> (of_char c :: nat) = 121 \<or> (of_char c :: nat) = 89"
    unfolding lower_char_def Let_def
    by (auto simp: char_of_eq_iff take_bit_eq_mod y)
  then show ?thesis by (simp only: y Y)
qed

lemma strip_keeps_head:
  assumes "\<not> isspace c"
  shows "strip (c # cs) = c # rev (dropWhile isspace (rev cs))"
  using assms by (simp add: strip_def dropWhile_append3)

lemma strip_Nil: "strip [] = []"
  by (simp add: strip_def)

section \<open>Classification\<close>

lemma classify_label_record:
  assumes "map_of kvs ''name'' = Some (JStr nm)"
    and "map_of kvs ''color'' = Some c"
    and "map_of kvs ''description'' = Some d"
  shows "classify_label (JObj kvs) =
     Inr \<lparr>name = nm, color = c, description = d,
          category =
            (if prefix ''lsp/'' nm then AREA
             else if prefix ''size/'' nm then SIZE
             else if prefix ''P'' nm \<and>
                     (sublist ''-critical'' nm \<or> sublist ''-must'' nm \<or>
                      sublist ''-should'' nm \<or> sublist ''-nice'' nm)
                  then PRIORITY
             else if nm = ''bug'' \<or> nm = ''enhancement'' \<or> nm = ''documentation'' \<or>
                     nm = ''architecture'' \<or> nm = ''tech-debt''
                  then TYPE'
             else FLAG)\<rparr>"
  using assms
  by (auto simp add: classify_label_def startswith_prefix py_in_sublist)

lemma classify_P1_must:
  "classify_label (JObj [(''name'', JStr ''P1-must''), (''color'', c), (''description'', d)]) =
     Inr \<lparr>name = ''P1-must'', color = c, description = d, category = PRIORITY\<rparr>"
  by (simp add: classify_label_def startswith_def)

text \<open>
  C1. A label record (an object with a string \<open>name\<close>, a \<open>color\<close> and a \<open>description\<close>)
  is classified by the first rule that matches, in this order: a name with the prefix
  \<open>lsp/\<close> is AREA; else one with the prefix \<open>size/\<close> is SIZE; else one that starts with
  \<open>P\<close> and contains \<open>-critical\<close>, \<open>-must\<close>, \<open>-should\<close> or \<open>-nice\<close> is PRIORITY; else one of
  the five literal names is TYPE; else FLAG. The name \<open>P1-must\<close> is PRIORITY. Prefix and
  substring are the library's \<open>prefix\<close> and \<open>sublist\<close>.
\<close>

theorem classify_label_first_match:
  assumes "map_of kvs ''name'' = Some (JStr nm)"
    and "map_of kvs ''color'' = Some c"
    and "map_of kvs ''description'' = Some d"
  shows "classify_label (JObj kvs) =
           Inr \<lparr>name = nm, color = c, description = d,
                category =
                  (if prefix ''lsp/'' nm then AREA
                   else if prefix ''size/'' nm then SIZE
                   else if prefix ''P'' nm \<and>
                           (sublist ''-critical'' nm \<or> sublist ''-must'' nm \<or>
                            sublist ''-should'' nm \<or> sublist ''-nice'' nm)
                        then PRIORITY
                   else if nm = ''bug'' \<or> nm = ''enhancement'' \<or> nm = ''documentation'' \<or>
                           nm = ''architecture'' \<or> nm = ''tech-debt''
                        then TYPE'
                   else FLAG)\<rparr>
         \<and> classify_label
             (JObj [(''name'', JStr ''P1-must''), (''color'', c), (''description'', d)]) =
           Inr \<lparr>name = ''P1-must'', color = c, description = d, category = PRIORITY\<rparr>"
  using classify_label_record [OF assms] classify_P1_must by simp

theorem classify_label_first_match_witness:
  "classify_label (JObj [(''name'', JStr ''lsp/Psize/-must''), (''color'', JStr ''c2e0c6''),
                         (''description'', JNull)]) =
     Inr \<lparr>name = ''lsp/Psize/-must'', color = JStr ''c2e0c6'', description = JNull,
          category = AREA\<rparr>
   \<and> classify_label (JObj [(''name'', JStr ''P1-must''), (''color'', JStr ''c2e0c6''),
                           (''description'', JNull)]) =
     Inr \<lparr>name = ''P1-must'', color = JStr ''c2e0c6'', description = JNull,
          category = PRIORITY\<rparr>"
  using classify_label_first_match
    [of "[(''name'', JStr ''lsp/Psize/-must''), (''color'', JStr ''c2e0c6''),
          (''description'', JNull)]" "''lsp/Psize/-must''" "JStr ''c2e0c6''" JNull]
  by simp

text \<open>
  C9. The category depends on the name alone: two label records with the same name get
  the same category whatever their colors and descriptions are, and every name gets a
  category (classification of a label record never fails).
\<close>

theorem classify_label_name_only:
  assumes "map_of kvs1 ''name'' = Some (JStr nm)"
    and "map_of kvs1 ''color'' = Some c1"
    and "map_of kvs1 ''description'' = Some d1"
    and "map_of kvs2 ''name'' = Some (JStr nm)"
    and "map_of kvs2 ''color'' = Some c2"
    and "map_of kvs2 ''description'' = Some d2"
  shows "\<exists>l1 l2. classify_label (JObj kvs1) = Inr l1 \<and> classify_label (JObj kvs2) = Inr l2
           \<and> category l1 = category l2 \<and> name l1 = nm \<and> name l2 = nm
           \<and> category l1 \<in> {TYPE', AREA, PRIORITY, SIZE, FLAG}"
  using classify_label_record [OF assms(1-3)] classify_label_record [OF assms(4-6)]
  by simp

theorem classify_label_name_only_witness:
  "\<exists>l1 l2.
     classify_label (JObj [(''name'', JStr ''size/S''), (''color'', JStr ''bfd4f2''),
                           (''description'', JStr ''Small'')]) = Inr l1
   \<and> classify_label (JObj [(''description'', JNum 7), (''color'', JNull),
                           (''name'', JStr ''size/S'')]) = Inr l2
   \<and> category l1 = category l2 \<and> name l1 = ''size/S'' \<and> name l2 = ''size/S''
   \<and> category l1 \<in> {TYPE', AREA, PRIORITY, SIZE, FLAG}"
  using classify_label_name_only
    [of "[(''name'', JStr ''size/S''), (''color'', JStr ''bfd4f2''),
          (''description'', JStr ''Small'')]" "''size/S''" "JStr ''bfd4f2''" "JStr ''Small''"
        "[(''description'', JNum 7), (''color'', JNull), (''name'', JStr ''size/S'')]"
        JNull "JNum 7"]
  by simp

section \<open>Category queries\<close>

lemma get_by_category_max:
  assumes "subseq ys (labels reg)" and "\<forall>l\<in>set ys. category l = c"
  shows "subseq ys (get_by_category reg c)"
proof -
  have "filter (\<lambda>l. category l = c) ys = ys"
    using assms(2) by (simp add: filter_id_conv)
  then show ?thesis
    using subseq_filter [OF assms(1), of "\<lambda>l. category l = c"]
    by (simp add: get_by_category_def)
qed

text \<open>
  C5. \<open>get_by_category\<close> returns the labels of the given category as a subsequence of the
  registry's list: it is a subsequence, all its members have the category, and every
  subsequence of the registry whose members have the category is a subsequence of it (so
  nothing is dropped and the order is the registry's). With no label of the category the
  result is the empty list. For the order A (area), B (flag), C (area) the AREA query
  gives A, C.
\<close>

theorem get_by_category_order:
  "subseq (get_by_category reg c) (labels reg)
   \<and> get_by_category reg c = filter (\<lambda>l. category l = c) (labels reg)
   \<and> (\<forall>l\<in>set (get_by_category reg c). category l = c)
   \<and> (\<forall>ys. subseq ys (labels reg) \<and> (\<forall>l\<in>set ys. category l = c)
          \<longrightarrow> subseq ys (get_by_category reg c))
   \<and> ((\<forall>l\<in>set (labels reg). category l \<noteq> c) \<longrightarrow> get_by_category reg c = [])
   \<and> (category a = AREA \<and> category b = FLAG \<and> category d = AREA
        \<longrightarrow> get_by_category \<lparr>labels = [a, b, d]\<rparr> AREA = [a, d])"
proof -
  have "\<forall>ys. subseq ys (labels reg) \<and> (\<forall>l\<in>set ys. category l = c)
          \<longrightarrow> subseq ys (get_by_category reg c)"
    using get_by_category_max by blast
  moreover have "(\<forall>l\<in>set (labels reg). category l \<noteq> c) \<longrightarrow> get_by_category reg c = []"
    by (simp add: get_by_category_def filter_empty_conv)
  ultimately show ?thesis
    by (simp add: get_by_category_def)
qed

theorem get_by_category_order_witness:
  "get_by_category test_registry AREA =
     [\<lparr>name = ''lsp/completion'', color = JStr ''c2e0c6'',
       description = JStr ''Completion features'', category = AREA\<rparr>]
   \<and> get_by_category \<lparr>labels = []\<rparr> AREA = []
   \<and> get_by_category
       \<lparr>labels = [\<lparr>name = ''lsp/a'', color = JNull, description = JNull, category = AREA\<rparr>,
                  \<lparr>name = ''blocked'', color = JNull, description = JNull, category = FLAG\<rparr>,
                  \<lparr>name = ''lsp/c'', color = JNull, description = JNull, category = AREA\<rparr>]\<rparr>
       AREA =
     [\<lparr>name = ''lsp/a'', color = JNull, description = JNull, category = AREA\<rparr>,
      \<lparr>name = ''lsp/c'', color = JNull, description = JNull, category = AREA\<rparr>]"
  using get_by_category_order [of test_registry AREA]
    get_by_category_order [of "\<lparr>labels = []\<rparr>" AREA
      "\<lparr>name = ''lsp/a'', color = JNull, description = JNull, category = AREA\<rparr>"
      "\<lparr>name = ''blocked'', color = JNull, description = JNull, category = FLAG\<rparr>"
      "\<lparr>name = ''lsp/c'', color = JNull, description = JNull, category = AREA\<rparr>"]
  by (simp add: test_registry_def)

section \<open>The prompt loops\<close>

lemmas select_single_loop_induct =
  select_single_loop.raw_induct [rotated 1, consumes 1, case_names step]

lemma select_single_loop_eof:
  "inp k = None \<Longrightarrow> select_single_loop opts inp k sel = Some (Inl EOFError)"
  by (subst select_single_loop.simps) simp

lemma select_single_loop_accept:
  "inp k = Some line \<Longrightarrow> py_int line = Some i \<Longrightarrow> 1 \<le> i \<Longrightarrow> i \<le> int (length opts) \<Longrightarrow>
     select_single_loop opts inp k sel = Some (Inr (Suc k, sel @ [name (opts ! nat (i - 1))]))"
  by (subst select_single_loop.simps) simp

lemma select_single_loop_retry:
  "inp k = Some line \<Longrightarrow>
     py_int line = None \<or> (\<exists>i. py_int line = Some i \<and> (i < 1 \<or> int (length opts) < i)) \<Longrightarrow>
     select_single_loop opts inp k sel = select_single_loop opts inp (Suc k) sel"
  by (subst select_single_loop.simps) auto

lemma select_single_loop_result:
  assumes "select_single_loop opts inp k sel = Some r"
  shows "r = Inl EOFError \<or>
         (\<exists>k' i. r = Inr (k', sel @ [name (opts ! i)]) \<and> k < k' \<and> i < length opts)"
  using assms
proof (induction rule: select_single_loop_induct)
  case (step loop opts inp k sel r)
  note 1 = step
  show ?case
  proof (cases "inp k")
    case None
    with 1(2) show ?thesis by simp
  next
    case (Some line)
    show ?thesis
    proof (cases "py_int line")
      case None
      with Some 1(2) have "loop opts inp (Suc k) sel = Some r" by simp
      from 1(1) [OF this] show ?thesis by (auto intro: Suc_lessD)
    next
      case (Some i)
      show ?thesis
      proof (cases "1 \<le> i \<and> i \<le> int (length opts)")
        case True
        with Some \<open>inp k = Some line\<close> 1(2)
        have "r = Inr (Suc k, sel @ [name (opts ! nat (i - 1))])" by simp
        moreover from True have "nat (i - 1) < length opts" by linarith
        ultimately show ?thesis by blast
      next
        case False
        with Some \<open>inp k = Some line\<close> 1(2)
        have "loop opts inp (Suc k) sel = Some r" by auto
        from 1(1) [OF this] show ?thesis by (auto intro: Suc_lessD)
      qed
    qed
  qed
qed

lemma select_single_loop_forever:
  assumes "\<forall>j\<ge>k. inp j \<noteq> None"
  shows "select_single_loop [] inp k sel = None"
proof (rule ccontr)
  assume "select_single_loop [] inp k sel \<noteq> None"
  then obtain r where r: "select_single_loop [] inp k sel = Some r" by blast
  define opts :: "Label list" where "opts = []"
  have "select_single_loop opts inp k sel = Some r" using r by (simp add: opts_def)
  then have "opts = [] \<longrightarrow> (\<forall>j\<ge>k. inp j \<noteq> None) \<longrightarrow> False"
  proof (induction rule: select_single_loop_induct)
    case (step loop opts inp k sel r)
    note 1 = step
    show ?case
    proof (intro impI)
      assume e: "opts = []" and a: "\<forall>j\<ge>k. inp j \<noteq> None"
      then obtain line where l: "inp k = Some line" by auto
      have "loop opts inp (Suc k) sel = Some r"
        using 1(2) l e by (auto split: option.splits if_splits)
      from 1(1) [OF this] e a show False by (simp add: Suc_leD)
    qed
  qed
  with assms show False by (simp add: opts_def)
qed

lemmas select_multiple_loop_induct =
  select_multiple_loop.raw_induct [rotated 1, consumes 1, case_names step]

lemmas title_loop_induct =
  title_loop.raw_induct [rotated 1, consumes 1, case_names step]

lemma those_map_Some:
  "those (map f xs) = Some ys \<longleftrightarrow> (\<forall>x\<in>set xs. f x \<noteq> None) \<and> ys = map (\<lambda>x. the (f x)) xs"
  by (induction xs arbitrary: ys) (auto split: option.splits)

lemma those_map_None: "those (map f xs) = None \<longleftrightarrow> (\<exists>x\<in>set xs. f x = None)"
  by (induction xs) (auto split: option.splits)

lemma collect_eq:
  "collect opts idxs v acc =
     (v \<and> (\<forall>i\<in>set idxs. 1 \<le> i \<and> i \<le> int (length opts)),
      acc @ map (\<lambda>i. name (opts ! nat (i - 1)))
                (filter (\<lambda>i. 1 \<le> i \<and> i \<le> int (length opts)) idxs))"
  by (induction idxs arbitrary: v acc) auto

lemma collect_names: "set (snd (collect opts idxs v [])) \<subseteq> name ` set opts"
proof -
  have "name (opts ! nat (i - 1)) \<in> name ` set opts"
    if "1 \<le> i" "i \<le> int (length opts)" for i
  proof -
    from that have "nat (i - 1) < length opts" by linarith
    then show ?thesis by simp
  qed
  then show ?thesis by (auto simp: collect_eq)
qed

lemma select_multiple_loop_eof:
  "inp k = None \<Longrightarrow> select_multiple_loop opts inp k sel = Some (Inl EOFError)"
  by (subst select_multiple_loop.simps) simp

lemma select_multiple_loop_skip:
  "inp k = Some line \<Longrightarrow> strip line = [] \<Longrightarrow>
     select_multiple_loop opts inp k sel = Some (Inr (Suc k, sel))"
  by (subst select_multiple_loop.simps) simp

lemma select_multiple_loop_accept:
  assumes "inp k = Some line" and "strip line \<noteq> []"
    and "\<forall>t\<in>set (split CHR '','' (strip line)).
           \<exists>i. py_int (strip t) = Some i \<and> 1 \<le> i \<and> i \<le> int (length opts)"
  shows "select_multiple_loop opts inp k sel =
     Some (Inr (Suc k, sel @ map (\<lambda>t. name (opts ! nat (the (py_int (strip t)) - 1)))
                                 (split CHR '','' (strip line))))"
proof -
  let ?ts = "split CHR '','' (strip line)"
  let ?idxs = "map (\<lambda>t. the (py_int (strip t))) ?ts"
  have th: "those (map (\<lambda>c. py_int (strip c)) ?ts) = Some ?idxs"
    using assms(3) by (subst those_map_Some) auto
  have all: "\<forall>i\<in>set ?idxs. 1 \<le> i \<and> i \<le> int (length opts)"
    using assms(3) by auto
  then have "filter (\<lambda>i. 1 \<le> i \<and> i \<le> int (length opts)) ?idxs = ?idxs"
    by (simp only: filter_id_conv)
  with all have "collect opts ?idxs True [] =
      (True, map (\<lambda>i. name (opts ! nat (i - 1))) ?idxs)"
    by (simp add: collect_eq)
  with th assms(1,2) show ?thesis
    by (subst select_multiple_loop.simps) (simp add: comp_def)
qed

lemma select_multiple_loop_retry:
  assumes "inp k = Some line" and "strip line \<noteq> []"
    and "\<not> (\<forall>t\<in>set (split CHR '','' (strip line)).
           \<exists>i. py_int (strip t) = Some i \<and> 1 \<le> i \<and> i \<le> int (length opts))"
  shows "select_multiple_loop opts inp k sel = select_multiple_loop opts inp (Suc k) sel"
proof (cases "those (map (\<lambda>c. py_int (strip c)) (split CHR '','' (strip line)))")
  case None
  with assms(1,2) show ?thesis
    by (subst select_multiple_loop.simps) simp
next
  case (Some idxs)
  then have idxs: "\<forall>t\<in>set (split CHR '','' (strip line)). py_int (strip t) \<noteq> None"
    and eq: "idxs = map (\<lambda>t. the (py_int (strip t))) (split CHR '','' (strip line))"
    by (simp_all add: those_map_Some)
  from assms(3) obtain t where t: "t \<in> set (split CHR '','' (strip line))"
    and bad: "\<not> (\<exists>i. py_int (strip t) = Some i \<and> 1 \<le> i \<and> i \<le> int (length opts))"
    by blast
  from idxs t obtain i where i: "py_int (strip t) = Some i" by auto
  with bad have "\<not> (1 \<le> i \<and> i \<le> int (length opts))" by simp
  moreover from t i eq have "i \<in> set idxs" by force
  ultimately have "\<not> fst (collect opts idxs True [])"
    by (auto simp: collect_eq)
  with Some assms(1,2) show ?thesis
    by (subst select_multiple_loop.simps) simp
qed

lemma select_multiple_loop_result:
  assumes "select_multiple_loop opts inp k sel = Some r"
  shows "r = Inl EOFError \<or>
         (\<exists>k' added. r = Inr (k', sel @ added) \<and> k < k' \<and> set added \<subseteq> name ` set opts)"
  using assms
proof (induction rule: select_multiple_loop_induct)
  case (step loop opts inp k sel r)
  show ?case
  proof (cases "inp k")
    case None
    with step(2) show ?thesis by simp
  next
    case (Some line)
    show ?thesis
    proof (cases "strip line = []")
      case True
      with step(2) Some have "r = Inr (Suc k, sel @ [])" by simp
      then show ?thesis
        by (intro disjI2 exI [of _ "Suc k"] exI [of _ "[]"]) simp
    next
      case False
      note nonempty = this
      show ?thesis
      proof (cases "those (map (\<lambda>c. py_int (strip c)) (split CHR '','' (strip line)))")
        case None
        with step(2) Some nonempty have "loop opts inp (Suc k) sel = Some r" by simp
        from step(1) [OF this] show ?thesis by (auto intro: Suc_lessD)
      next
        case (Some idxs)
        note parsed = this
        show ?thesis
        proof (cases "fst (collect opts idxs True [])")
          case True
          with step(2) \<open>inp k = Some line\<close> nonempty parsed
          have "r = Inr (Suc k, sel @ snd (collect opts idxs True []))" by simp
          moreover have "set (snd (collect opts idxs True [])) \<subseteq> name ` set opts"
            by (rule collect_names)
          ultimately show ?thesis
            by (intro disjI2 exI [of _ "Suc k"] exI [of _ "snd (collect opts idxs True [])"])
               simp
        next
          case False
          with step(2) \<open>inp k = Some line\<close> nonempty parsed
          have "loop opts inp (Suc k) sel = Some r" by simp
          from step(1) [OF this] show ?thesis by (auto intro: Suc_lessD)
        qed
      qed
    qed
  qed
qed

lemma title_loop_result:
  assumes "title_loop inp k t = Some r"
  shows "r = Inl EOFError \<or> (\<exists>k' t'. r = Inr (k', t') \<and> k \<le> k' \<and> t' \<noteq> [])"
  using assms
proof (induction rule: title_loop_induct)
  case (step loop inp k t r)
  show ?case
  proof (cases "t \<noteq> []")
    case True
    with step(2) show ?thesis by auto
  next
    case False
    show ?thesis
    proof (cases "inp k")
      case None
      with False step(2) show ?thesis by simp
    next
      case (Some line)
      with False step(2) have "loop inp (Suc k) (strip line) = Some r" by simp
      from step(1) [OF this] show ?thesis by (auto intro: Suc_leD)
    qed
  qed
qed

section \<open>Confirmation and single selection\<close>

lemma startswith_lower_y:
  "startswith (lower line) ''y'' \<longleftrightarrow> (\<exists>rest. line = CHR ''y'' # rest \<or> line = CHR ''Y'' # rest)"
  by (cases line) (auto simp: startswith_def lower_def lower_char_y)

lemma confirm_line:
  "inp k = Some line \<Longrightarrow> confirm inp k = Inr (startswith (lower line) ''y'', Suc k)"
  by (simp add: confirm_def)

lemma confirm_eof: "inp k = None \<Longrightarrow> confirm inp k = Inl EOFError"
  by (simp add: confirm_def)

lemma strip_no_leading_space:
  assumes "line = [] \<or> \<not> isspace (hd line)"
  shows "startswith (lower (strip line)) ''y'' = startswith (lower line) ''y''"
proof (cases line)
  case Nil
  then show ?thesis by (simp add: strip_Nil)
next
  case (Cons c cs)
  with assms have "\<not> isspace c" by simp
  then show ?thesis
    unfolding Cons by (simp add: strip_keeps_head startswith_def lower_def)
qed

text \<open>
  C2, as the code has it. \<open>_confirm\<close> reads exactly one line and answers yes if and only if
  the lowercased line, taken as typed without trimming, starts with \<open>y\<close>, that is, if the
  line starts with \<open>y\<close> or \<open>Y\<close>. Every other line, the empty one included, is a no.
  On lines that do not start with whitespace the answer is the one the trimmed line gives.
\<close>

theorem confirm_untrimmed:
  assumes "inp k = Some line"
  shows "confirm inp k = Inr (prefix ''y'' (lower line), Suc k)
     \<and> (prefix ''y'' (lower line) \<longleftrightarrow>
          (\<exists>rest. line = CHR ''y'' # rest \<or> line = CHR ''Y'' # rest))
     \<and> (line = [] \<or> \<not> isspace (hd line) \<longrightarrow>
          prefix ''y'' (lower (strip line)) = prefix ''y'' (lower line))"
  using confirm_line [of inp k line, OF assms] startswith_lower_y [of line]
    strip_no_leading_space [of line]
  by (simp add: startswith_prefix)

theorem confirm_untrimmed_witness:
  "confirm (script [''YES please'']) 0 = Inr (True, Suc 0)
   \<and> confirm (script [''maybe'']) 0 = Inr (False, Suc 0)
   \<and> confirm (script ['''']) 0 = Inr (False, Suc 0)
   \<and> confirm (script ['' yes'']) 0 = Inr (False, Suc 0)"
  using confirm_untrimmed [of "script [''YES please'']" 0 "''YES please''"]
    confirm_untrimmed [of "script [''maybe'']" 0 "''maybe''"]
    confirm_untrimmed [of "script ['''']" 0 "''''"]
    confirm_untrimmed [of "script ['' yes'']" 0 "'' yes''"]
  by (simp add: script_def)

text \<open>
  The line \<open>" y"\<close> starts with \<open>y\<close> once trimmed and lowercased, but \<open>_confirm\<close> answers
  no: the code does not trim.
\<close>

theorem confirm_trimmed_counterexample:
  "confirm (script ['' y'']) 0 = Inr (False, Suc 0)
   \<and> startswith (lower (strip '' y'')) ''y''"
  by (simp add: confirm_def script_def startswith_def lower_def lower_char_def
      strip_def isspace_def)

lemma py_int_examples:
  "py_int ''abc'' = None" "py_int ''0'' = Some 0" "py_int ''4'' = Some 4"
  "py_int ''1'' = Some 1" "py_int ''2'' = Some 2" "py_int ''3'' = Some 3" "py_int ''9'' = Some 9"
  "py_int '''' = None" "py_int ''n'' = None" "py_int ''y'' = None"
  by (simp_all add: py_int_def int_space_def digit_val_def max_str_digits_def)

section \<open>Multiple selection and the empty category\<close>

lemma strip_examples:
  "strip ''1,3'' = ''1,3''" "strip ''1,9'' = ''1,9''" "strip '' 3 , 1 '' = ''3 , 1''"
  "strip ''1'' = ''1''" "strip ''3'' = ''3''" "strip ''9'' = ''9''" "strip ''3 '' = ''3''"
  "strip '' 1'' = ''1''" "strip '' '' = []" "strip ''1,x'' = ''1,x''" "strip ''x'' = ''x''"
  by (simp_all add: strip_def isspace_def)

lemma py_int_x: "py_int ''x'' = None"
  by (simp add: py_int_def int_space_def digit_val_def max_str_digits_def)

lemma select_single_loop_empty_no_accept:
  assumes "select_single_loop [] inp k sel = Some r"
  shows "r = Inl EOFError"
  using select_single_loop_result [OF assms] by simp

lemma select_single_empty:
  assumes "get_by_category (registry z) c = []"
  shows "select_single c (w, z) = None \<or> select_single c (w, z) = Some (Died EOFError, w, z)"
proof (cases "select_single_loop [] (stdin w) (cursor w) (selected_labels z)")
  case None
  with assms show ?thesis by (simp add: select_single_def)
next
  case (Some r)
  from select_single_loop_empty_no_accept [OF Some] Some assms
  show ?thesis by (simp add: select_single_def)
qed

text \<open>
  C10. With an empty option list the loop of \<open>_select_single\<close> accepts no line: every line
  leads to the same loop on the next line with the selected labels unchanged, the loop never
  returns normally, and on an input that never ends it runs forever. The only way out is the
  end of input, which raises \<open>EOFError\<close> and leaves the wizard as it was.
\<close>

theorem select_single_empty_category:
  "(inp k = Some line \<longrightarrow>
      select_single_loop [] inp k sel = select_single_loop [] inp (Suc k) sel)
   \<and> select_single_loop [] inp k sel \<noteq> Some (Inr r)
   \<and> ((\<forall>j\<ge>k. inp j \<noteq> None) \<longrightarrow> select_single_loop [] inp k sel = None)
   \<and> (get_by_category (registry z) c = [] \<longrightarrow>
        select_single c (w, z) \<noteq> Some (Continue, w', z')
        \<and> (select_single c (w, z) = None
            \<or> select_single c (w, z) = Some (Died EOFError, w, z)))"
proof -
  have a: "inp k = Some line \<longrightarrow>
      select_single_loop [] inp k sel = select_single_loop [] inp (Suc k) sel"
  proof
    assume l: "inp k = Some line"
    have "py_int line = None \<or> (\<exists>i. py_int line = Some i \<and> (i < 1 \<or> int (length ([]::Label list)) < i))"
      by (cases "py_int line") auto
    from select_single_loop_retry [of inp k line "[]" sel, OF l this] 
    show "select_single_loop [] inp k sel = select_single_loop [] inp (Suc k) sel" .
  qed
  have b: "select_single_loop [] inp k sel \<noteq> Some (Inr r)"
    using select_single_loop_empty_no_accept [of inp k sel "Inr r"] by auto
  have c: "(\<forall>j\<ge>k. inp j \<noteq> None) \<longrightarrow> select_single_loop [] inp k sel = None"
    using select_single_loop_forever by blast
  have d: "get_by_category (registry z) c = [] \<longrightarrow>
        select_single c (w, z) \<noteq> Some (Continue, w', z')
        \<and> (select_single c (w, z) = None
            \<or> select_single c (w, z) = Some (Died EOFError, w, z))"
    using select_single_empty [of z c w] by auto
  from a b c d show ?thesis by blast
qed

theorem select_single_empty_category_witness:
  "select_single_loop [] (\<lambda>k. Some ''1'') 0 [''bug''] = None
   \<and> select_single_loop [] (script [''1'', ''abc'']) 0 [''bug''] = Some (Inl EOFError)
   \<and> get_by_category \<lparr>labels = []\<rparr> PRIORITY = []"
proof -
  have "select_single_loop [] (\<lambda>k. Some ''1'') 0 [''bug''] = None"
    using select_single_empty_category
      [of "\<lambda>k. Some ''1''" 0 "''1''" "[''bug'']",
       THEN conjunct2, THEN conjunct2, THEN conjunct1]
    by simp
  moreover have "select_single_loop [] (script [''1'', ''abc'']) 0 [''bug''] = Some (Inl EOFError)"
    using select_single_empty_category
      [of "script [''1'', ''abc'']" 0 "''1''" "[''bug'']", THEN conjunct1]
      select_single_empty_category
      [of "script [''1'', ''abc'']" "Suc 0" "''abc''" "[''bug'']", THEN conjunct1]
      select_single_loop_eof [of "script [''1'', ''abc'']" "Suc (Suc 0)" "[]" "[''bug'']"]
    by (simp add: script_def)
  ultimately show ?thesis by (simp add: get_by_category_def)
qed

section \<open>The selection steps\<close>

lemma select_single_accept_step:
  assumes "stdin w (cursor w) = Some line" and "py_int line = Some i"
    and "1 \<le> i" and "i \<le> int (length (get_by_category (registry z) c))"
  shows "select_single c (w, z) =
     Some (Continue, w\<lparr>cursor := Suc (cursor w)\<rparr>,
           z\<lparr>selected_labels :=
               selected_labels z @ [name (get_by_category (registry z) c ! nat (i - 1))]\<rparr>)"
  using select_single_loop_accept [of "stdin w" "cursor w" line i
      "get_by_category (registry z) c" "selected_labels z"] assms
  by (simp add: select_single_def)

lemma select_single_retry_step:
  assumes "select_single_loop (get_by_category (registry z) c) (stdin w) (cursor w)
             (selected_labels z)
           = select_single_loop (get_by_category (registry z) c) (stdin w) (Suc (cursor w))
               (selected_labels z)"
  shows "(select_single c (w, z) = None \<longleftrightarrow>
            select_single c (w\<lparr>cursor := Suc (cursor w)\<rparr>, z) = None)
     \<and> (\<forall>w' z'. select_single c (w, z) = Some (Continue, w', z') \<longleftrightarrow>
            select_single c (w\<lparr>cursor := Suc (cursor w)\<rparr>, z) = Some (Continue, w', z'))
     \<and> (\<forall>e. select_single c (w, z) = Some (Died e, w, z) \<longleftrightarrow>
            select_single c (w\<lparr>cursor := Suc (cursor w)\<rparr>, z) =
              Some (Died e, w\<lparr>cursor := Suc (cursor w)\<rparr>, z))
     \<and> (\<forall>z'. select_single c (w, z) \<noteq> Some (Continue, w\<lparr>cursor := Suc (cursor w)\<rparr>, z'))"
proof (cases "select_single_loop (get_by_category (registry z) c) (stdin w) (Suc (cursor w))
                (selected_labels z)")
  case None
  with assms show ?thesis by (simp add: select_single_def)
next
  case (Some r)
  show ?thesis
  proof (cases r)
    case (Inl e)
    with Some assms show ?thesis by (simp add: select_single_def)
  next
    case (Inr p)
    obtain k' sel' where p: "p = (k', sel')" by (cases p)
    from select_single_loop_result [OF Some] Inr p have less: "Suc (cursor w) < k'" by auto
    have neq: "w\<lparr>cursor := k'\<rparr> \<noteq> w\<lparr>cursor := Suc (cursor w)\<rparr>"
    proof
      assume "w\<lparr>cursor := k'\<rparr> = w\<lparr>cursor := Suc (cursor w)\<rparr>"
      then have "cursor (w\<lparr>cursor := k'\<rparr>) = cursor (w\<lparr>cursor := Suc (cursor w)\<rparr>)"
        by (rule arg_cong)
      with less show False by simp
    qed
    from Some Inr p assms neq show ?thesis by (simp add: select_single_def)
  qed
qed

text \<open>
  C4. A single-select step over the category \<open>c\<close>, whose options are
  \<open>get_by_category (registry z) c\<close>, reading the line at the cursor. If the line is not an
  integer, or is an integer outside 1..n, the loop goes on at the next line with the selected
  labels unchanged, and the step on this line behaves as the same step started at the next
  line with the same wizard: it runs forever, advances to a state, or dies exactly when that
  one does, and it does not advance on this line. If the line is an integer \<open>i\<close> in 1..n the
  step advances past this line with exactly the name of the \<open>i\<close>-th option appended.
\<close>

theorem select_single_step:
  assumes "stdin w (cursor w) = Some line"
  shows "(py_int line = None \<or>
          (\<exists>i. py_int line = Some i \<and>
               (i < 1 \<or> int (length (get_by_category (registry z) c)) < i))
          \<longrightarrow>
            select_single_loop (get_by_category (registry z) c) (stdin w) (cursor w)
              (selected_labels z)
            = select_single_loop (get_by_category (registry z) c) (stdin w) (Suc (cursor w))
                (selected_labels z)
          \<and> (select_single c (w, z) = None \<longleftrightarrow>
                select_single c (w\<lparr>cursor := Suc (cursor w)\<rparr>, z) = None)
          \<and> (\<forall>w' z'. select_single c (w, z) = Some (Continue, w', z') \<longleftrightarrow>
                select_single c (w\<lparr>cursor := Suc (cursor w)\<rparr>, z) = Some (Continue, w', z'))
          \<and> (\<forall>e. select_single c (w, z) = Some (Died e, w, z) \<longleftrightarrow>
                select_single c (w\<lparr>cursor := Suc (cursor w)\<rparr>, z) =
                  Some (Died e, w\<lparr>cursor := Suc (cursor w)\<rparr>, z))
          \<and> (\<forall>z'. select_single c (w, z) \<noteq>
                Some (Continue, w\<lparr>cursor := Suc (cursor w)\<rparr>, z')))
     \<and> (\<forall>i. py_int line = Some i \<and> 1 \<le> i \<and>
              i \<le> int (length (get_by_category (registry z) c))
          \<longrightarrow> select_single c (w, z) =
                Some (Continue, w\<lparr>cursor := Suc (cursor w)\<rparr>,
                      z\<lparr>selected_labels := selected_labels z @
                          [name (get_by_category (registry z) c ! nat (i - 1))]\<rparr>))"
proof (intro conjI impI allI)
  assume bad: "py_int line = None \<or>
          (\<exists>i. py_int line = Some i \<and>
               (i < 1 \<or> int (length (get_by_category (registry z) c)) < i))"
  from select_single_loop_retry [of "stdin w" "cursor w" line
      "get_by_category (registry z) c" "selected_labels z", OF assms bad]
  have eq: "select_single_loop (get_by_category (registry z) c) (stdin w) (cursor w)
              (selected_labels z)
            = select_single_loop (get_by_category (registry z) c) (stdin w) (Suc (cursor w))
                (selected_labels z)" .
  note r = select_single_retry_step [OF eq]
  show "select_single_loop (get_by_category (registry z) c) (stdin w) (cursor w)
              (selected_labels z)
            = select_single_loop (get_by_category (registry z) c) (stdin w) (Suc (cursor w))
                (selected_labels z)" by (rule eq)
  show "select_single c (w, z) = None \<longleftrightarrow>
                select_single c (w\<lparr>cursor := Suc (cursor w)\<rparr>, z) = None"
    using r by blast
  show "select_single c (w, z) = Some (Continue, w', z') \<longleftrightarrow>
                select_single c (w\<lparr>cursor := Suc (cursor w)\<rparr>, z) = Some (Continue, w', z')"
    for w' z' using r by blast
  show "select_single c (w, z) = Some (Died e, w, z) \<longleftrightarrow>
                select_single c (w\<lparr>cursor := Suc (cursor w)\<rparr>, z) =
                  Some (Died e, w\<lparr>cursor := Suc (cursor w)\<rparr>, z)"
    for e using r by blast
  show "select_single c (w, z) \<noteq> Some (Continue, w\<lparr>cursor := Suc (cursor w)\<rparr>, z')"
    for z' using r by blast
next
  fix i
  assume "py_int line = Some i \<and> 1 \<le> i \<and> i \<le> int (length (get_by_category (registry z) c))"
  with select_single_accept_step [OF assms, of i z c]
  show "select_single c (w, z) =
                Some (Continue, w\<lparr>cursor := Suc (cursor w)\<rparr>,
                      z\<lparr>selected_labels := selected_labels z @
                          [name (get_by_category (registry z) c ! nat (i - 1))]\<rparr>)"
    by simp
qed

lemma demo_world_sel:
  "stdin (demo_world e g ls) = script ls" "cursor (demo_world e g ls) = 0"
  by (simp_all add: demo_world_def)

lemma sample_wizard_options:
  "get_by_category (registry sample_wizard) AREA = sample_options"
  "get_by_category (registry sample_wizard) PRIORITY = []"
  "selected_labels sample_wizard = [''bug'']"
  by (simp_all add: sample_wizard_def sample_options_def get_by_category_def)

theorem select_single_step_witness:
  "select_single AREA
     (demo_world (Exited 0) (Exited 0) [''abc'', ''4'', ''0'', ''2''], sample_wizard)
   = Some (Continue,
       demo_world (Exited 0) (Exited 0) [''abc'', ''4'', ''0'', ''2'']
         \<lparr>cursor := Suc (Suc (Suc (Suc 0)))\<rparr>,
       sample_wizard\<lparr>selected_labels := [''bug'', ''lsp/hover'']\<rparr>)"
proof -
  let ?w = "demo_world (Exited 0) (Exited 0) [''abc'', ''4'', ''0'', ''2'']"
  let ?r = "Some (Continue, ?w\<lparr>cursor := Suc (Suc (Suc (Suc 0)))\<rparr>,
       sample_wizard\<lparr>selected_labels := [''bug'', ''lsp/hover'']\<rparr>)"
  have a3: "select_single AREA (?w\<lparr>cursor := Suc (Suc (Suc 0))\<rparr>, sample_wizard) = ?r"
    using select_single_step
      [of "?w\<lparr>cursor := Suc (Suc (Suc 0))\<rparr>" "''2''" sample_wizard AREA, THEN conjunct2]
    by (simp add: demo_world_sel script_def py_int_examples sample_wizard_options
        sample_options_def)
  have a2: "select_single AREA (?w\<lparr>cursor := Suc (Suc 0)\<rparr>, sample_wizard) = ?r"
    using select_single_step
      [of "?w\<lparr>cursor := Suc (Suc 0)\<rparr>" "''0''" sample_wizard AREA, THEN conjunct1] a3
    by (simp add: demo_world_sel script_def py_int_examples sample_wizard_options
        sample_options_def)
  have a1: "select_single AREA (?w\<lparr>cursor := Suc 0\<rparr>, sample_wizard) = ?r"
    using select_single_step
      [of "?w\<lparr>cursor := Suc 0\<rparr>" "''4''" sample_wizard AREA, THEN conjunct1] a2
    by (simp add: demo_world_sel script_def py_int_examples sample_wizard_options
        sample_options_def)
  show ?thesis
    using select_single_step [of ?w "''abc''" sample_wizard AREA, THEN conjunct1] a1
    by (simp add: demo_world_sel script_def py_int_examples sample_wizard_options
        sample_options_def)
qed

lemma select_multiple_retry_step:
  assumes "select_multiple_loop (get_by_category (registry z) c) (stdin w) (cursor w)
             (selected_labels z)
           = select_multiple_loop (get_by_category (registry z) c) (stdin w) (Suc (cursor w))
               (selected_labels z)"
  shows "(select_multiple c (w, z) = None \<longleftrightarrow>
            select_multiple c (w\<lparr>cursor := Suc (cursor w)\<rparr>, z) = None)
     \<and> (\<forall>w' z'. select_multiple c (w, z) = Some (Continue, w', z') \<longleftrightarrow>
            select_multiple c (w\<lparr>cursor := Suc (cursor w)\<rparr>, z) = Some (Continue, w', z'))
     \<and> (\<forall>e. select_multiple c (w, z) = Some (Died e, w, z) \<longleftrightarrow>
            select_multiple c (w\<lparr>cursor := Suc (cursor w)\<rparr>, z) =
              Some (Died e, w\<lparr>cursor := Suc (cursor w)\<rparr>, z))
     \<and> (\<forall>z'. select_multiple c (w, z) \<noteq> Some (Continue, w\<lparr>cursor := Suc (cursor w)\<rparr>, z'))"
proof (cases "select_multiple_loop (get_by_category (registry z) c) (stdin w)
                (Suc (cursor w)) (selected_labels z)")
  case None
  with assms show ?thesis by (simp add: select_multiple_def)
next
  case (Some r)
  show ?thesis
  proof (cases r)
    case (Inl e)
    with Some assms show ?thesis by (simp add: select_multiple_def)
  next
    case (Inr p)
    obtain k' sel' where p: "p = (k', sel')" by (cases p)
    from select_multiple_loop_result [OF Some] Inr p have less: "Suc (cursor w) < k'" by auto
    have neq: "w\<lparr>cursor := k'\<rparr> \<noteq> w\<lparr>cursor := Suc (cursor w)\<rparr>"
    proof
      assume "w\<lparr>cursor := k'\<rparr> = w\<lparr>cursor := Suc (cursor w)\<rparr>"
      then have "cursor (w\<lparr>cursor := k'\<rparr>) = cursor (w\<lparr>cursor := Suc (cursor w)\<rparr>)"
        by (rule arg_cong)
      with less show False by simp
    qed
    from Some Inr p assms neq show ?thesis by (simp add: select_multiple_def)
  qed
qed

text \<open>
  C3. A multi-select step over the category \<open>c\<close>, whose options are
  \<open>get_by_category (registry z) c\<close>, reading the line at the cursor. A line that is empty once
  trimmed ends the step with the wizard unchanged. Otherwise the trimmed line is split at
  commas and each token is trimmed and parsed. If every token is an integer in 1..n the step
  advances with the names of the chosen options appended in the order of the tokens. If some
  token is not an integer or is out of range, nothing is appended, not even for the valid
  tokens: the step behaves as the same step started at the next line with the same wizard.
\<close>

theorem select_multiple_step:
  assumes "stdin w (cursor w) = Some line"
  shows "(strip line = [] \<longrightarrow>
            select_multiple c (w, z) = Some (Continue, w\<lparr>cursor := Suc (cursor w)\<rparr>, z))
     \<and> (strip line \<noteq> [] \<and>
         (\<forall>t\<in>set (split CHR '','' (strip line)).
            \<exists>i. py_int (strip t) = Some i \<and> 1 \<le> i \<and>
                i \<le> int (length (get_by_category (registry z) c)))
         \<longrightarrow> select_multiple c (w, z) =
               Some (Continue, w\<lparr>cursor := Suc (cursor w)\<rparr>,
                 z\<lparr>selected_labels := selected_labels z @
                     map (\<lambda>t. name (get_by_category (registry z) c
                                       ! nat (the (py_int (strip t)) - 1)))
                         (split CHR '','' (strip line))\<rparr>))
     \<and> (strip line \<noteq> [] \<and>
         \<not> (\<forall>t\<in>set (split CHR '','' (strip line)).
              \<exists>i. py_int (strip t) = Some i \<and> 1 \<le> i \<and>
                  i \<le> int (length (get_by_category (registry z) c)))
         \<longrightarrow>
            select_multiple_loop (get_by_category (registry z) c) (stdin w) (cursor w)
              (selected_labels z)
            = select_multiple_loop (get_by_category (registry z) c) (stdin w)
                (Suc (cursor w)) (selected_labels z)
          \<and> (select_multiple c (w, z) = None \<longleftrightarrow>
                select_multiple c (w\<lparr>cursor := Suc (cursor w)\<rparr>, z) = None)
          \<and> (\<forall>w' z'. select_multiple c (w, z) = Some (Continue, w', z') \<longleftrightarrow>
                select_multiple c (w\<lparr>cursor := Suc (cursor w)\<rparr>, z) =
                  Some (Continue, w', z'))
          \<and> (\<forall>e. select_multiple c (w, z) = Some (Died e, w, z) \<longleftrightarrow>
                select_multiple c (w\<lparr>cursor := Suc (cursor w)\<rparr>, z) =
                  Some (Died e, w\<lparr>cursor := Suc (cursor w)\<rparr>, z))
          \<and> (\<forall>z'. select_multiple c (w, z) \<noteq>
                Some (Continue, w\<lparr>cursor := Suc (cursor w)\<rparr>, z')))"
proof -
  let ?opts = "get_by_category (registry z) c"
  let ?ok = "\<forall>t\<in>set (split CHR '','' (strip line)).
              \<exists>i. py_int (strip t) = Some i \<and> 1 \<le> i \<and> i \<le> int (length ?opts)"
  have skip: "strip line = [] \<longrightarrow>
      select_multiple c (w, z) = Some (Continue, w\<lparr>cursor := Suc (cursor w)\<rparr>, z)"
  proof
    assume "strip line = []"
    from select_multiple_loop_skip [of "stdin w" "cursor w" line ?opts "selected_labels z",
        OF assms this]
    show "select_multiple c (w, z) = Some (Continue, w\<lparr>cursor := Suc (cursor w)\<rparr>, z)"
      by (simp add: select_multiple_def)
  qed
  have accept: "strip line \<noteq> [] \<and> ?ok \<longrightarrow> select_multiple c (w, z) =
               Some (Continue, w\<lparr>cursor := Suc (cursor w)\<rparr>,
                 z\<lparr>selected_labels := selected_labels z @
                     map (\<lambda>t. name (?opts ! nat (the (py_int (strip t)) - 1)))
                         (split CHR '','' (strip line))\<rparr>)"
  proof
    assume h: "strip line \<noteq> [] \<and> ?ok"
    then have ne: "strip line \<noteq> []" and ok: ?ok by simp_all
    from select_multiple_loop_accept [of "stdin w" "cursor w" line ?opts "selected_labels z",
        OF assms ne ok]
    show "select_multiple c (w, z) =
               Some (Continue, w\<lparr>cursor := Suc (cursor w)\<rparr>,
                 z\<lparr>selected_labels := selected_labels z @
                     map (\<lambda>t. name (?opts ! nat (the (py_int (strip t)) - 1)))
                         (split CHR '','' (strip line))\<rparr>)"
      by (simp add: select_multiple_def)
  qed
  have retry: "strip line \<noteq> [] \<and> \<not> ?ok \<longrightarrow>
            select_multiple_loop ?opts (stdin w) (cursor w) (selected_labels z)
            = select_multiple_loop ?opts (stdin w) (Suc (cursor w)) (selected_labels z)
          \<and> (select_multiple c (w, z) = None \<longleftrightarrow>
                select_multiple c (w\<lparr>cursor := Suc (cursor w)\<rparr>, z) = None)
          \<and> (\<forall>w' z'. select_multiple c (w, z) = Some (Continue, w', z') \<longleftrightarrow>
                select_multiple c (w\<lparr>cursor := Suc (cursor w)\<rparr>, z) =
                  Some (Continue, w', z'))
          \<and> (\<forall>e. select_multiple c (w, z) = Some (Died e, w, z) \<longleftrightarrow>
                select_multiple c (w\<lparr>cursor := Suc (cursor w)\<rparr>, z) =
                  Some (Died e, w\<lparr>cursor := Suc (cursor w)\<rparr>, z))
          \<and> (\<forall>z'. select_multiple c (w, z) \<noteq>
                Some (Continue, w\<lparr>cursor := Suc (cursor w)\<rparr>, z'))"
  proof
    assume h: "strip line \<noteq> [] \<and> \<not> ?ok"
    then have ne: "strip line \<noteq> []" and bad: "\<not> ?ok" by simp_all
    from select_multiple_loop_retry [of "stdin w" "cursor w" line ?opts "selected_labels z",
        OF assms ne bad]
    have eq: "select_multiple_loop ?opts (stdin w) (cursor w) (selected_labels z)
            = select_multiple_loop ?opts (stdin w) (Suc (cursor w)) (selected_labels z)" .
    from eq select_multiple_retry_step [OF eq]
    show "select_multiple_loop ?opts (stdin w) (cursor w) (selected_labels z)
            = select_multiple_loop ?opts (stdin w) (Suc (cursor w)) (selected_labels z)
          \<and> (select_multiple c (w, z) = None \<longleftrightarrow>
                select_multiple c (w\<lparr>cursor := Suc (cursor w)\<rparr>, z) = None)
          \<and> (\<forall>w' z'. select_multiple c (w, z) = Some (Continue, w', z') \<longleftrightarrow>
                select_multiple c (w\<lparr>cursor := Suc (cursor w)\<rparr>, z) =
                  Some (Continue, w', z'))
          \<and> (\<forall>e. select_multiple c (w, z) = Some (Died e, w, z) \<longleftrightarrow>
                select_multiple c (w\<lparr>cursor := Suc (cursor w)\<rparr>, z) =
                  Some (Died e, w\<lparr>cursor := Suc (cursor w)\<rparr>, z))
          \<and> (\<forall>z'. select_multiple c (w, z) \<noteq>
                Some (Continue, w\<lparr>cursor := Suc (cursor w)\<rparr>, z'))"
      by blast
  qed
  from skip accept retry show ?thesis by (intro conjI)
qed

theorem select_multiple_step_witness:
  "select_multiple AREA (demo_world (Exited 0) (Exited 0) [''1,3''], sample_wizard)
     = Some (Continue, demo_world (Exited 0) (Exited 0) [''1,3'']\<lparr>cursor := Suc 0\<rparr>,
         sample_wizard\<lparr>selected_labels := [''bug'', ''lsp/completion'', ''lsp/rename'']\<rparr>)
   \<and> select_multiple AREA
       (demo_world (Exited 0) (Exited 0) [''1,9'', ''1,x'', '' 3 , 1 ''], sample_wizard)
     = Some (Continue,
         demo_world (Exited 0) (Exited 0) [''1,9'', ''1,x'', '' 3 , 1 '']
           \<lparr>cursor := Suc (Suc (Suc 0))\<rparr>,
         sample_wizard\<lparr>selected_labels := [''bug'', ''lsp/rename'', ''lsp/completion'']\<rparr>)
   \<and> select_multiple AREA (demo_world (Exited 0) (Exited 0) ['' ''], sample_wizard)
     = Some (Continue, demo_world (Exited 0) (Exited 0) ['' '']\<lparr>cursor := Suc 0\<rparr>,
         sample_wizard)"
proof -
  note ev = demo_world_sel script_def strip_examples py_int_examples py_int_x
    sample_wizard_options sample_options_def
  let ?w = "demo_world (Exited 0) (Exited 0) [''1,9'', ''1,x'', '' 3 , 1 '']"
  let ?r = "Some (Continue, ?w\<lparr>cursor := Suc (Suc (Suc 0))\<rparr>,
         sample_wizard\<lparr>selected_labels := [''bug'', ''lsp/rename'', ''lsp/completion'']\<rparr>)"
  have a: "select_multiple AREA (demo_world (Exited 0) (Exited 0) [''1,3''], sample_wizard)
     = Some (Continue, demo_world (Exited 0) (Exited 0) [''1,3'']\<lparr>cursor := Suc 0\<rparr>,
         sample_wizard\<lparr>selected_labels := [''bug'', ''lsp/completion'', ''lsp/rename'']\<rparr>)"
    using select_multiple_step
      [of "demo_world (Exited 0) (Exited 0) [''1,3'']" "''1,3''" AREA sample_wizard,
       THEN conjunct2, THEN conjunct1]
    by (simp add: ev)
  have b2: "select_multiple AREA (?w\<lparr>cursor := Suc (Suc 0)\<rparr>, sample_wizard) = ?r"
    using select_multiple_step
      [of "?w\<lparr>cursor := Suc (Suc 0)\<rparr>" "'' 3 , 1 ''" AREA sample_wizard,
       THEN conjunct2, THEN conjunct1]
    by (simp add: ev)
  have b1: "select_multiple AREA (?w\<lparr>cursor := Suc 0\<rparr>, sample_wizard) = ?r"
    using select_multiple_step
      [of "?w\<lparr>cursor := Suc 0\<rparr>" "''1,x''" AREA sample_wizard,
       THEN conjunct2, THEN conjunct2] b2
    by (simp add: ev)
  have b: "select_multiple AREA (?w, sample_wizard) = ?r"
    using select_multiple_step
      [of ?w "''1,9''" AREA sample_wizard, THEN conjunct2, THEN conjunct2] b1
    by (simp add: ev)
  have c: "select_multiple AREA (demo_world (Exited 0) (Exited 0) ['' ''], sample_wizard)
     = Some (Continue, demo_world (Exited 0) (Exited 0) ['' '']\<lparr>cursor := Suc 0\<rparr>,
         sample_wizard)"
    using select_multiple_step
      [of "demo_world (Exited 0) (Exited 0) ['' '']" "'' ''" AREA sample_wizard,
       THEN conjunct1]
    by (simp add: ev)
  from a b c show ?thesis by (intro conjI)
qed

section \<open>Building the registry\<close>

lemma subscript_errors:
  assumes "subscript item key = Inl e"
  shows "e = TypeError \<or> e = KeyError key"
  using assms by (cases item) (auto split: option.splits)

lemma classify_label_errors:
  assumes "classify_label item = Inl e"
  shows "e = TypeError \<or> e = AttributeError \<or> (\<exists>key. e = KeyError key)"
proof (cases "subscript item ''name''")
  case (Inl e1)
  with assms have "e = e1" by (simp add: classify_label_def)
  with subscript_errors [OF Inl] show ?thesis by blast
next
  case (Inr v)
  note nm = this
  show ?thesis
  proof (cases "\<exists>s. v = JStr s")
    case False
    with assms nm have "e = AttributeError"
      by (cases v) (simp_all add: classify_label_def)
    then show ?thesis by simp
  next
    case True
    then obtain s where s: "v = JStr s" by blast
    show ?thesis
    proof (cases "subscript item ''color''")
      case (Inl e1)
      with assms nm s have "e = e1" by (simp add: classify_label_def Let_def)
      with subscript_errors [OF Inl] show ?thesis by blast
    next
      case (Inr c)
      note col = this
      show ?thesis
      proof (cases "subscript item ''description''")
        case (Inl e1)
        with assms nm s col have "e = e1" by (simp add: classify_label_def Let_def)
        with subscript_errors [OF Inl] show ?thesis by blast
      next
        case (Inr d)
        with assms nm s col show ?thesis by (simp add: classify_label_def Let_def)
      qed
    qed
  qed
qed

lemma append_all_errors:
  assumes "append_all items ls = Inl e"
  shows "e = TypeError \<or> e = AttributeError \<or> (\<exists>key. e = KeyError key)"
  using assms
proof (induction items arbitrary: ls)
  case Nil
  then show ?case by simp
next
  case (Cons item rest)
  show ?case
  proof (cases "classify_label item")
    case (Inl e1)
    with Cons.prems have "e = e1" by simp
    with classify_label_errors [OF Inl] show ?thesis by blast
  next
    case (Inr l)
    with Cons.prems have "append_all rest (ls @ [l]) = Inl e" by simp
    then show ?thesis by (rule Cons.IH)
  qed
qed

lemma append_all_records:
  assumes "\<forall>item\<in>set items. \<exists>kvs nm c d. item = JObj kvs \<and>
             map_of kvs ''name'' = Some (JStr nm) \<and> map_of kvs ''color'' = Some c \<and>
             map_of kvs ''description'' = Some d"
  shows "\<exists>new. append_all items ls = Inr (ls @ new) \<and> map Inr new = map classify_label items"
  using assms
proof (induction items arbitrary: ls)
  case Nil
  then show ?case by simp
next
  case (Cons item rest)
  from Cons.prems obtain kvs nm c d where item: "item = JObj kvs"
    and f: "map_of kvs ''name'' = Some (JStr nm)" "map_of kvs ''color'' = Some c"
      "map_of kvs ''description'' = Some d"
    by auto
  from classify_label_record [OF f] obtain l where l: "classify_label item = Inr l"
    unfolding item by blast
  from Cons.prems have "\<forall>item\<in>set rest. \<exists>kvs nm c d. item = JObj kvs \<and>
             map_of kvs ''name'' = Some (JStr nm) \<and> map_of kvs ''color'' = Some c \<and>
             map_of kvs ''description'' = Some d" by simp
  from Cons.IH [OF this, of "ls @ [l]"] obtain new
    where new: "append_all rest (ls @ [l]) = Inr ((ls @ [l]) @ new)"
      and m: "map Inr new = map classify_label rest" by blast
  from l new m have "append_all (item # rest) ls = Inr (ls @ (l # new))
      \<and> map Inr (l # new) = map classify_label (item # rest)" by simp
  then show ?case by blast
qed


lemma read_labels_decoded_error:
  assumes "fs p = Decoded data" and "read_labels fs p = Inl e"
  shows "e = TypeError \<or> e = AttributeError \<or> (\<exists>key. e = KeyError key)"
proof (cases "iterate data")
  case (Inl e1)
  then have "e1 = TypeError" by (cases data) simp_all
  with assms Inl show ?thesis by (simp add: read_labels_def)
next
  case (Inr items)
  note it = this
  show ?thesis
  proof (cases "append_all items []")
    case (Inl e1)
    with assms it have "e = e1" by (simp add: read_labels_def)
    with append_all_errors [OF Inl] show ?thesis by blast
  next
    case (Inr ls)
    with assms it show ?thesis by (simp add: read_labels_def)
  qed
qed

lemma load_labels_decoded_error:
  assumes "fs p = Decoded data" and "load_labels fs p = Inl (msgs, e)"
  shows "msgs = [] \<and> (e = TypeError \<or> e = AttributeError \<or> (\<exists>key. e = KeyError key))"
proof (cases "read_labels fs p")
  case (Inr reg)
  with assms(2) show ?thesis by (simp add: load_labels_def)
next
  case (Inl e1)
  from read_labels_decoded_error [of fs p data e1] assms(1) Inl
  have "e1 = TypeError \<or> e1 = AttributeError \<or> (\<exists>key. e1 = KeyError key)" by simp
  with assms(2) Inl show ?thesis by (auto simp: load_labels_def)
qed

lemma load_labels_raises:
  assumes "fs p = Raises e"
  shows "load_labels fs p =
     (if e = FileNotFoundError
      then Inl ([''Error: Labels file not found at '' @ p], SystemExit 1)
      else if e = JSONDecodeError
      then Inl ([''Error: Invalid JSON in '' @ p], SystemExit 1)
      else Inl ([], e))"
  using assms by (cases e) (simp_all add: load_labels_def read_labels_def)

lemma load_labels_missing:
  "load_labels fs p = Inl ([''Error: Labels file not found at '' @ p], SystemExit 1)
     \<longleftrightarrow> fs p = Raises FileNotFoundError"
proof (cases "fs p")
  case (Decoded data)
  with load_labels_decoded_error [of fs p data] show ?thesis by auto
next
  case (Raises e)
  with load_labels_raises [of fs p e] show ?thesis by auto
qed

lemma load_labels_not_json:
  "load_labels fs p = Inl ([''Error: Invalid JSON in '' @ p], SystemExit 1)
     \<longleftrightarrow> fs p = Raises JSONDecodeError"
proof (cases "fs p")
  case (Decoded data)
  with load_labels_decoded_error [of fs p data] show ?thesis by auto
next
  case (Raises e)
  with load_labels_raises [of fs p e] show ?thesis by auto
qed

lemma load_labels_message:
  assumes "load_labels fs p = Inl (msgs, e)" and "msgs \<noteq> []"
  shows "fs p = Raises FileNotFoundError \<or> fs p = Raises JSONDecodeError"
proof (cases "fs p")
  case (Decoded data)
  with load_labels_decoded_error [of fs p data msgs e] assms show ?thesis by auto
next
  case (Raises e1)
  with load_labels_raises [of fs p e1] assms show ?thesis by (auto split: if_splits)
qed

lemma load_labels_records:
  assumes "fs p = Decoded (JArr items)"
    and "\<forall>item\<in>set items. \<exists>kvs nm c d. item = JObj kvs \<and>
             map_of kvs ''name'' = Some (JStr nm) \<and> map_of kvs ''color'' = Some c \<and>
             map_of kvs ''description'' = Some d"
  shows "\<exists>ls. load_labels fs p = Inr \<lparr>labels = ls\<rparr> \<and> map Inr ls = map classify_label items"
  using append_all_records [OF assms(2), of "[]"] assms(1)
  by (auto simp: load_labels_def read_labels_def)

text \<open>
  C6, as the code has it. Building the registry stops with the message
  \<open>Error: Labels file not found at <path>\<close> and \<open>sys.exit(1)\<close> exactly when opening the file
  raises \<open>FileNotFoundError\<close>, and with \<open>Error: Invalid JSON in <path>\<close> and \<open>sys.exit(1)\<close>
  exactly when decoding raises \<open>JSONDecodeError\<close>; the program prints a message in no other
  case, and no registry results in these two. Every other exception of opening or decoding
  ends the construction unhandled, as itself. Text that decodes to a value that is not a
  list of label records is not reported as malformed: if building fails there, it fails
  with an unhandled \<open>TypeError\<close>, \<open>AttributeError\<close> or \<open>KeyError\<close> and no message. A list of
  records that each have a string \<open>name\<close>, a \<open>color\<close> and a \<open>description\<close> gives a registry
  with the classified records in order.
\<close>

theorem load_labels_outcomes:
  "(load_labels fs p = Inl ([''Error: Labels file not found at '' @ p], SystemExit 1)
      \<longleftrightarrow> fs p = Raises FileNotFoundError)
   \<and> (load_labels fs p = Inl ([''Error: Invalid JSON in '' @ p], SystemExit 1)
      \<longleftrightarrow> fs p = Raises JSONDecodeError)
   \<and> (\<forall>msgs e. load_labels fs p = Inl (msgs, e) \<and> msgs \<noteq> []
        \<longrightarrow> fs p = Raises FileNotFoundError \<or> fs p = Raises JSONDecodeError)
   \<and> (\<forall>e. fs p = Raises e \<and> e \<noteq> FileNotFoundError \<and> e \<noteq> JSONDecodeError
        \<longrightarrow> load_labels fs p = Inl ([], e))
   \<and> (\<forall>data msgs e. fs p = Decoded data \<and> load_labels fs p = Inl (msgs, e)
        \<longrightarrow> msgs = [] \<and> (e = TypeError \<or> e = AttributeError \<or> (\<exists>key. e = KeyError key)))
   \<and> (\<forall>items. fs p = Decoded (JArr items) \<and>
         (\<forall>item\<in>set items. \<exists>kvs nm c d. item = JObj kvs \<and>
             map_of kvs ''name'' = Some (JStr nm) \<and> map_of kvs ''color'' = Some c \<and>
             map_of kvs ''description'' = Some d)
        \<longrightarrow> (\<exists>ls. load_labels fs p = Inr \<lparr>labels = ls\<rparr> \<and>
                  map Inr ls = map classify_label items))"
proof -
  have other: "\<forall>e. fs p = Raises e \<and> e \<noteq> FileNotFoundError \<and> e \<noteq> JSONDecodeError
        \<longrightarrow> load_labels fs p = Inl ([], e)"
    using load_labels_raises [of fs p] by simp
  from load_labels_missing [of fs p] load_labels_not_json [of fs p]
    load_labels_message [of fs p] other load_labels_decoded_error [of fs p]
    load_labels_records [of fs p]
  show ?thesis by blast
qed

lemma load_test_labels:
  "load_labels (\<lambda>path. Decoded test_labels) ''github-labels.json'' = Inr test_registry"
  by (simp add: load_labels_def read_labels_def test_labels_def test_registry_def
      classify_label_def startswith_def)

theorem load_labels_outcomes_witness:
  "load_labels (\<lambda>path. Raises FileNotFoundError) ''github-labels.json''
     = Inl ([''Error: Labels file not found at github-labels.json''], SystemExit 1)
   \<and> load_labels (\<lambda>path. Raises JSONDecodeError) ''github-labels.json''
     = Inl ([''Error: Invalid JSON in github-labels.json''], SystemExit 1)
   \<and> load_labels (\<lambda>path. Raises UnicodeDecodeError) ''github-labels.json''
     = Inl ([], UnicodeDecodeError)
   \<and> load_labels (\<lambda>path. Raises IsADirectoryError) ''github-labels.json''
     = Inl ([], IsADirectoryError)
   \<and> load_labels (\<lambda>path. Decoded test_labels) ''github-labels.json'' = Inr test_registry"
  using load_labels_outcomes [of "\<lambda>path. Raises FileNotFoundError" "''github-labels.json''"]
    load_labels_outcomes [of "\<lambda>path. Raises JSONDecodeError" "''github-labels.json''"]
    load_labels_outcomes [of "\<lambda>path. Raises UnicodeDecodeError" "''github-labels.json''"]
    load_labels_outcomes [of "\<lambda>path. Raises IsADirectoryError" "''github-labels.json''"]
    load_labels_outcomes [of "\<lambda>path. Decoded test_labels" "''github-labels.json''"]
    load_test_labels
  by simp

text \<open>
  JSON of the wrong shape: a record without \<open>color\<close> ends in \<open>KeyError\<close>, a list of
  strings in \<open>TypeError\<close>, neither with the message for invalid JSON; an empty object and
  a record whose color and description are not strings are accepted.
\<close>

theorem load_labels_wrong_shape_counterexample:
  "load_labels (\<lambda>path. Decoded (JArr [JObj [(''name'', JStr ''bug'')]])) ''github-labels.json''
     = Inl ([], KeyError ''color'')
   \<and> load_labels (\<lambda>path. Decoded (JArr [JStr ''bug''])) ''github-labels.json''
     = Inl ([], TypeError)
   \<and> load_labels (\<lambda>path. Decoded (JObj [])) ''github-labels.json'' = Inr \<lparr>labels = []\<rparr>
   \<and> load_labels
       (\<lambda>path. Decoded (JArr [JObj [(''name'', JStr ''bug''), (''color'', JNum 7),
                                   (''description'', JNull)]]))
       ''github-labels.json''
     = Inr \<lparr>labels = [\<lparr>name = ''bug'', color = JNum 7, description = JNull,
                        category = TYPE'\<rparr>]\<rparr>"
  by (simp add: load_labels_def read_labels_def classify_label_def startswith_def)

section \<open>Steps of a run\<close>

lemma grows_refl: "grows z z"
  by simp

lemma grows_trans:
  assumes "grows z z1" and "grows z1 z2"
  shows "grows z z2"
proof -
  from assms(1) obtain a1 where a1: "selected_labels z1 = selected_labels z @ a1"
    "set a1 \<subseteq> name ` set (labels (registry z))" and r1: "registry z1 = registry z" by blast
  from assms(2) obtain a2 where a2: "selected_labels z2 = selected_labels z1 @ a2"
    "set a2 \<subseteq> name ` set (labels (registry z1))" and r2: "registry z2 = registry z1" by blast
  have "selected_labels z2 = selected_labels z @ (a1 @ a2)" using a1(1) a2(1) by simp
  moreover have "set (a1 @ a2) \<subseteq> name ` set (labels (registry z))"
    using a1(2) a2(2) r1 by simp
  ultimately show ?thesis using r1 r2 by metis
qed

lemma get_by_category_subset: "set (get_by_category reg c) \<subseteq> set (labels reg)"
  by (simp add: get_by_category_def)

lemma seq_cases:
  assumes "seq f g s = Some (st, s')"
  shows "(f s = Some (st, s') \<and> st \<noteq> Continue) \<or> (\<exists>s1. f s = Some (Continue, s1) \<and> g s1 = Some (st, s'))"
  using assms by (auto simp: seq_def split: option.splits if_splits)

lemma capture_title_frame:
  assumes "capture_title (w, z) = Some (st, w', z')"
  shows "(st = Continue \<or> st = Died EOFError) \<and> registry z' = registry z
     \<and> selected_labels z' = selected_labels z"
proof (cases "title_loop (stdin w) (cursor w) (title z)")
  case None
  with assms show ?thesis by (simp add: capture_title_def)
next
  case (Some r)
  from title_loop_result [OF Some] Some assms show ?thesis
    by (auto simp: capture_title_def)
qed

lemma select_single_frame:
  assumes "select_single c (w, z) = Some (st, w', z')"
  shows "(st = Continue \<or> st = Died EOFError) \<and> registry z' = registry z
     \<and> (\<exists>added. selected_labels z' = selected_labels z @ added \<and>
          set added \<subseteq> name ` set (get_by_category (registry z) c))"
proof (cases "select_single_loop (get_by_category (registry z) c) (stdin w) (cursor w)
                (selected_labels z)")
  case None
  with assms show ?thesis by (simp add: select_single_def)
next
  case (Some r)
  from select_single_loop_result [OF Some]
  consider "r = Inl EOFError"
    | k' i where "r = Inr (k', selected_labels z @ [name (get_by_category (registry z) c ! i)])"
        "i < length (get_by_category (registry z) c)"
    by blast
  then show ?thesis
  proof cases
    case 1
    with Some assms have "st = Died EOFError" "z' = z" by (simp_all add: select_single_def)
    then show ?thesis by simp
  next
    case 2
    with Some assms have st: "st = Continue"
      and z': "z' = z\<lparr>selected_labels :=
                 selected_labels z @ [name (get_by_category (registry z) c ! i)]\<rparr>"
      by (simp_all add: select_single_def)
    have "set [name (get_by_category (registry z) c ! i)]
            \<subseteq> name ` set (get_by_category (registry z) c)"
      using 2(2) by simp
    with st z' show ?thesis by simp
  qed
qed

lemma select_multiple_frame:
  assumes "select_multiple c (w, z) = Some (st, w', z')"
  shows "(st = Continue \<or> st = Died EOFError) \<and> registry z' = registry z
     \<and> (\<exists>added. selected_labels z' = selected_labels z @ added \<and>
          set added \<subseteq> name ` set (get_by_category (registry z) c))"
proof (cases "select_multiple_loop (get_by_category (registry z) c) (stdin w) (cursor w)
                (selected_labels z)")
  case None
  with assms show ?thesis by (simp add: select_multiple_def)
next
  case (Some r)
  from select_multiple_loop_result [OF Some]
  consider "r = Inl EOFError"
    | k' added where "r = Inr (k', selected_labels z @ added)"
        "set added \<subseteq> name ` set (get_by_category (registry z) c)"
    by blast
  then show ?thesis
  proof cases
    case 1
    with Some assms have "st = Died EOFError" "z' = z" by (simp_all add: select_multiple_def)
    then show ?thesis by simp
  next
    case 2
    with Some assms have st: "st = Continue"
      and z': "z' = z\<lparr>selected_labels := selected_labels z @ added\<rparr>"
      by (simp_all add: select_multiple_def)
    with 2(2) show ?thesis by simp
  qed
qed

lemma optional_flags_frame:
  assumes "optional_flags (w, z) = Some (st, w', z')"
  shows "(st = Continue \<or> st = Died EOFError) \<and> registry z' = registry z
     \<and> (\<exists>added. selected_labels z' = selected_labels z @ added \<and>
          set added \<subseteq> name ` set (get_by_category (registry z) FLAG))"
proof (cases "stdin w (cursor w)")
  case None
  with assms show ?thesis by (simp add: optional_flags_def confirm_def)
next
  case (Some line)
  show ?thesis
  proof (cases "startswith (lower line) ''y''")
    case True
    with Some assms
    have "select_multiple FLAG (w\<lparr>cursor := Suc (cursor w)\<rparr>, z) = Some (st, w', z')"
      by (simp add: optional_flags_def confirm_def)
    from select_multiple_frame [OF this] show ?thesis .
  next
    case False
    with Some assms show ?thesis by (simp add: optional_flags_def confirm_def)
  qed
qed

lemma within_registry:
  assumes "set added \<subseteq> name ` set (get_by_category reg c)"
  shows "set added \<subseteq> name ` set (labels reg)"
  using assms get_by_category_subset [of reg c] by blast

lemma create_body_frame:
  assumes "create_body (w, z) = Some (st, w', z')"
  shows "z' = z\<lparr>body_file := tempname w\<rparr>"
  using assms
  by (auto simp: create_body_def Let_def split: option.splits exn.splits)

lemma submit_frame:
  assumes "submit (w, z) = Some (st, w', z')"
  shows "z' = z"
  using assms
  by (auto simp: submit_def Let_def split: sum.splits if_splits option.splits exn.splits)

lemma pre_step_frames:
  "capture_title (w, z) = Some (st, w', z') \<Longrightarrow> (st = Continue \<or> st = Died EOFError) \<and> grows z z'"
  "select_single c (w, z) = Some (st, w', z') \<Longrightarrow> (st = Continue \<or> st = Died EOFError) \<and> grows z z'"
  "select_multiple c (w, z) = Some (st, w', z') \<Longrightarrow> (st = Continue \<or> st = Died EOFError) \<and> grows z z'"
  "optional_flags (w, z) = Some (st, w', z') \<Longrightarrow> (st = Continue \<or> st = Died EOFError) \<and> grows z z'"
proof -
  show "capture_title (w, z) = Some (st, w', z') \<Longrightarrow> (st = Continue \<or> st = Died EOFError) \<and> grows z z'"
    using capture_title_frame [of w z st w' z'] by simp
  show "select_single c (w, z) = Some (st, w', z') \<Longrightarrow> (st = Continue \<or> st = Died EOFError) \<and> grows z z'"
    using select_single_frame [of c w z st w' z'] within_registry [of _ "registry z" c] by metis
  show "select_multiple c (w, z) = Some (st, w', z') \<Longrightarrow> (st = Continue \<or> st = Died EOFError) \<and> grows z z'"
    using select_multiple_frame [of c w z st w' z'] within_registry [of _ "registry z" c] by metis
  show "optional_flags (w, z) = Some (st, w', z') \<Longrightarrow> (st = Continue \<or> st = Died EOFError) \<and> grows z z'"
    using optional_flags_frame [of w z st w' z'] within_registry [of _ "registry z" FLAG] by metis
qed

lemma seq_pre_step:
  assumes f: "\<And>w z st w' z'. f (w, z) = Some (st, w', z') \<Longrightarrow>
                (st = Continue \<or> st = Died EOFError) \<and> grows z z'"
    and g: "\<And>w z st w' z'. g (w, z) = Some (st, w', z') \<Longrightarrow>
                (st = Died EOFError \<and> grows z z') \<or>
                (\<exists>w1 z1. grows z z1 \<and> tail (w1, z1) = Some (st, w', z'))"
    and run: "seq f g (w, z) = Some (st, w', z')"
  shows "(st = Died EOFError \<and> grows z z') \<or>
         (\<exists>w1 z1. grows z z1 \<and> tail (w1, z1) = Some (st, w', z'))"
proof -
  from seq_cases [OF run]
  consider "f (w, z) = Some (st, w', z')" "st \<noteq> Continue"
    | w0 z0 where "f (w, z) = Some (Continue, w0, z0)" "g (w0, z0) = Some (st, w', z')"
    by auto
  then show ?thesis
  proof cases
    case 1
    with f [OF 1(1)] show ?thesis by simp
  next
    case 2
    from f [OF 2(1)] have g0: "grows z z0" by simp
    from g [OF 2(2)] show ?thesis
    proof
      assume "st = Died EOFError \<and> grows z0 z'"
      with grows_trans [OF g0, of z'] show ?thesis by simp
    next
      assume "\<exists>w1 z1. grows z0 z1 \<and> tail (w1, z1) = Some (st, w', z')"
      then obtain w1 z1 where "grows z0 z1" and t: "tail (w1, z1) = Some (st, w', z')" by blast
      with grows_trans [OF g0, of z1] have "grows z z1" by simp
      with t show ?thesis by blast
    qed
  qed
qed

lemma run_split:
  assumes "run (w, z) = Some (st, w', z')"
  shows "(st = Died EOFError \<and> grows z z') \<or>
         (\<exists>w1 z1. grows z z1 \<and> seq create_body submit (w1, z1) = Some (st, w', z'))"
proof -
  have t: "(st = Died EOFError \<and> grows z z') \<or>
      (\<exists>w1 z1. grows z z1 \<and> seq create_body submit (w1, z1) = Some (st, w', z'))"
    if "seq create_body submit (w, z) = Some (st, w', z')" for w z st w' z'
    using that grows_refl [of z] by blast
  have s6: "(st = Died EOFError \<and> grows z z') \<or>
      (\<exists>w1 z1. grows z z1 \<and> seq create_body submit (w1, z1) = Some (st, w', z'))"
    if "seq optional_flags (seq create_body submit) (w, z) = Some (st, w', z')"
    for w z st w' z'
    using that by (rule seq_pre_step [rotated 2]) (erule pre_step_frames, erule t)
  have s5: "(st = Died EOFError \<and> grows z z') \<or>
      (\<exists>w1 z1. grows z z1 \<and> seq create_body submit (w1, z1) = Some (st, w', z'))"
    if "seq (select_single SIZE) (seq optional_flags (seq create_body submit)) (w, z)
          = Some (st, w', z')"
    for w z st w' z'
    using that by (rule seq_pre_step [rotated 2]) (erule pre_step_frames, erule s6)
  have s4: "(st = Died EOFError \<and> grows z z') \<or>
      (\<exists>w1 z1. grows z z1 \<and> seq create_body submit (w1, z1) = Some (st, w', z'))"
    if "seq (select_single PRIORITY) (seq (select_single SIZE)
          (seq optional_flags (seq create_body submit))) (w, z) = Some (st, w', z')"
    for w z st w' z'
    using that by (rule seq_pre_step [rotated 2]) (erule pre_step_frames, erule s5)
  have s3: "(st = Died EOFError \<and> grows z z') \<or>
      (\<exists>w1 z1. grows z z1 \<and> seq create_body submit (w1, z1) = Some (st, w', z'))"
    if "seq (select_multiple AREA) (seq (select_single PRIORITY) (seq (select_single SIZE)
          (seq optional_flags (seq create_body submit)))) (w, z) = Some (st, w', z')"
    for w z st w' z'
    using that by (rule seq_pre_step [rotated 2]) (erule pre_step_frames, erule s4)
  have s2: "(st = Died EOFError \<and> grows z z') \<or>
      (\<exists>w1 z1. grows z z1 \<and> seq create_body submit (w1, z1) = Some (st, w', z'))"
    if "seq (select_single TYPE') (seq (select_multiple AREA) (seq (select_single PRIORITY)
          (seq (select_single SIZE) (seq optional_flags (seq create_body submit))))) (w, z)
          = Some (st, w', z')"
    for w z st w' z'
    using that by (rule seq_pre_step [rotated 2]) (erule pre_step_frames, erule s3)
  from assms show ?thesis
    unfolding run_def by (rule seq_pre_step [rotated 2]) (erule pre_step_frames, erule s2)
qed

lemma tail_frame:
  assumes "seq create_body submit (w, z) = Some (st, w', z')"
  shows "z' = z\<lparr>body_file := tempname w\<rparr>"
proof -
  from seq_cases [OF assms]
  consider "create_body (w, z) = Some (st, w', z')"
    | w1 z1 where "create_body (w, z) = Some (Continue, w1, z1)"
        "submit (w1, z1) = Some (st, w', z')"
    by auto
  then show ?thesis
  proof cases
    case 1
    then show ?thesis by (rule create_body_frame)
  next
    case 2
    from create_body_frame [OF 2(1)] submit_frame [OF 2(2)] show ?thesis by simp
  qed
qed

lemma run_grows:
  assumes "run (w, z) = Some (st, w', z')"
  shows "grows z z'"
proof -
  from run_split [OF assms] show ?thesis
  proof
    assume "st = Died EOFError \<and> grows z z'"
    then show ?thesis by simp
  next
    assume "\<exists>w1 z1. grows z z1 \<and> seq create_body submit (w1, z1) = Some (st, w', z')"
    then obtain w1 z1 where g: "grows z z1"
      and t: "seq create_body submit (w1, z1) = Some (st, w', z')" by blast
    from tail_frame [OF t] have "z' = z1\<lparr>body_file := tempname w1\<rparr>" .
    with g show ?thesis by simp
  qed
qed

section \<open>Sample sessions\<close>

lemmas eval_defs =
  run_def seq_def capture_title_def select_single_def select_multiple_def optional_flags_def
  create_body_def submit_def confirm_def subprocess_run_def unlink_quietly_def
  IssueWizard_init_def demo_world_def script_def test_registry_def get_by_category_def
  title_loop.simps select_single_loop.simps select_multiple_loop.simps
  strip_def isspace_def startswith_lower_y
  py_int_def int_space_def digit_val_def max_str_digits_def Let_def
  ending_def body_file_exists_def chosen_def events_def

lemma demo_submitted:
  "run (demo_world (Exited 0) (Exited 0)
          [''  '', ''Crash on hover'', ''x'', ''1'', '''', ''1'', ''1'', ''yes'', ''1'', ''Y''],
        IssueWizard_init test_registry) =
   Some (Submitted,
     demo_world (Exited 0) (Exited 0)
          [''  '', ''Crash on hover'', ''x'', ''1'', '''', ''1'', ''1'', ''yes'', ''1'', ''Y'']
       \<lparr>cursor := 10, files := {},
        trace := [Created ''/tmp/tmpk3v9.md'', Spawned [''vim'', ''/tmp/tmpk3v9.md''],
          Spawned [''gh'', ''issue'', ''create'', ''--title'', ''Crash on hover'',
            ''--body-file'', ''/tmp/tmpk3v9.md'', ''--label'', ''bug'',
            ''--label'', ''P1-must'', ''--label'', ''size/S'',
            ''--label'', ''good-first-issue''],
          Unlinked ''/tmp/tmpk3v9.md'']\<rparr>,
     \<lparr>registry = test_registry,
      selected_labels = [''bug'', ''P1-must'', ''size/S'', ''good-first-issue''],
      title = ''Crash on hover'', body_file = ''/tmp/tmpk3v9.md''\<rparr>)"
  by (simp add: eval_defs)


lemma demo_editor_missing:
  "run (demo_world (Raised FileNotFoundError) (Exited 0)
          [''Crash on hover'', ''1'', ''1'', ''1'', ''1'', ''n'', ''y''],
        IssueWizard_init test_registry) =
   Some (Died (SystemExit 1),
     demo_world (Raised FileNotFoundError) (Exited 0)
          [''Crash on hover'', ''1'', ''1'', ''1'', ''1'', ''n'', ''y'']
       \<lparr>cursor := 6, files := {},
        trace := [Created ''/tmp/tmpk3v9.md'', Spawned [''vim'', ''/tmp/tmpk3v9.md''],
          Unlinked ''/tmp/tmpk3v9.md'']\<rparr>,
     \<lparr>registry = test_registry,
      selected_labels = [''bug'', ''lsp/completion'', ''P1-must'', ''size/S''],
      title = ''Crash on hover'', body_file = ''/tmp/tmpk3v9.md''\<rparr>)"
  by (simp add: eval_defs)

lemma demo_gh_missing:
  "run (demo_world (Exited 0) (Raised FileNotFoundError)
          [''Crash on hover'', ''1'', ''1'', ''1'', ''1'', ''n'', ''y''],
        IssueWizard_init test_registry) =
   Some (Died FileNotFoundError,
     demo_world (Exited 0) (Raised FileNotFoundError)
          [''Crash on hover'', ''1'', ''1'', ''1'', ''1'', ''n'', ''y'']
       \<lparr>cursor := 7, files := {''/tmp/tmpk3v9.md''},
        trace := [Created ''/tmp/tmpk3v9.md'', Spawned [''vim'', ''/tmp/tmpk3v9.md''],
          Spawned [''gh'', ''issue'', ''create'', ''--title'', ''Crash on hover'',
            ''--body-file'', ''/tmp/tmpk3v9.md'', ''--label'', ''bug'',
            ''--label'', ''lsp/completion'', ''--label'', ''P1-must'',
            ''--label'', ''size/S'']]\<rparr>,
     \<lparr>registry = test_registry,
      selected_labels = [''bug'', ''lsp/completion'', ''P1-must'', ''size/S''],
      title = ''Crash on hover'', body_file = ''/tmp/tmpk3v9.md''\<rparr>)"
  by (simp add: eval_defs)

lemma demo_eof_at_confirmation:
  "run (demo_world (Exited 0) (Exited 0)
          [''Crash on hover'', ''1'', ''1'', ''1'', ''1'', ''n''],
        IssueWizard_init test_registry) =
   Some (Died EOFError,
     demo_world (Exited 0) (Exited 0)
          [''Crash on hover'', ''1'', ''1'', ''1'', ''1'', ''n'']
       \<lparr>cursor := 6, files := {''/tmp/tmpk3v9.md''},
        trace := [Created ''/tmp/tmpk3v9.md'', Spawned [''vim'', ''/tmp/tmpk3v9.md'']]\<rparr>,
     \<lparr>registry = test_registry,
      selected_labels = [''bug'', ''lsp/completion'', ''P1-must'', ''size/S''],
      title = ''Crash on hover'', body_file = ''/tmp/tmpk3v9.md''\<rparr>)"
  by (simp add: eval_defs)

text \<open>
  What \<open>_submit\<close> does when the user has confirmed and starting the issue-tracker client
  raises anything but \<open>CalledProcessError\<close>: the exception ends the run, the files are as
  they were and no removal is attempted.
\<close>

lemma submit_unhandled:
  assumes "stdin w (cursor w) = Some line" and "startswith (lower line) ''y''"
    and "spawn w ([''gh'', ''issue'', ''create'', ''--title'', title z,
                   ''--body-file'', body_file z]
                  @ concat (map (\<lambda>l. [''--label'', l]) (selected_labels z))) = Raised e"
    and "\<forall>rc. e \<noteq> CalledProcessError rc"
  shows "submit (w, z) =
     Some (Died e,
       w\<lparr>cursor := Suc (cursor w),
         trace := trace w @
           [Spawned ([''gh'', ''issue'', ''create'', ''--title'', title z,
                      ''--body-file'', body_file z]
                     @ concat (map (\<lambda>l. [''--label'', l]) (selected_labels z)))]\<rparr>,
       z)"
  using assms
  by (cases e) (simp_all add: submit_def confirm_def subprocess_run_def Let_def)

text \<open>
  C7 at the failing inputs. The user confirms the submission and the issue-tracker client
  cannot be started: the run dies of \<open>FileNotFoundError\<close> with the body file in place and
  without an attempt to remove it. The same holds when the input ends at the final
  confirmation. When it is the editor that cannot be started, the run removes the file
  before it exits.
\<close>

theorem body_file_left_on_fatal_paths:
  "ending (run (demo_world (Exited 0) (Raised FileNotFoundError)
          [''Crash on hover'', ''1'', ''1'', ''1'', ''1'', ''n'', ''y''],
        IssueWizard_init test_registry)) = Some (Died FileNotFoundError)
   \<and> body_file_exists (run (demo_world (Exited 0) (Raised FileNotFoundError)
          [''Crash on hover'', ''1'', ''1'', ''1'', ''1'', ''n'', ''y''],
        IssueWizard_init test_registry))
   \<and> Unlinked ''/tmp/tmpk3v9.md'' \<notin> set (events (run (demo_world (Exited 0)
          (Raised FileNotFoundError)
          [''Crash on hover'', ''1'', ''1'', ''1'', ''1'', ''n'', ''y''],
        IssueWizard_init test_registry)))
   \<and> ending (run (demo_world (Exited 0) (Exited 0)
          [''Crash on hover'', ''1'', ''1'', ''1'', ''1'', ''n''],
        IssueWizard_init test_registry)) = Some (Died EOFError)
   \<and> body_file_exists (run (demo_world (Exited 0) (Exited 0)
          [''Crash on hover'', ''1'', ''1'', ''1'', ''1'', ''n''],
        IssueWizard_init test_registry))
   \<and> Unlinked ''/tmp/tmpk3v9.md'' \<notin> set (events (run (demo_world (Exited 0) (Exited 0)
          [''Crash on hover'', ''1'', ''1'', ''1'', ''1'', ''n''],
        IssueWizard_init test_registry)))
   \<and> ending (run (demo_world (Raised FileNotFoundError) (Exited 0)
          [''Crash on hover'', ''1'', ''1'', ''1'', ''1'', ''n'', ''y''],
        IssueWizard_init test_registry)) = Some (Died (SystemExit 1))
   \<and> \<not> body_file_exists (run (demo_world (Raised FileNotFoundError) (Exited 0)
          [''Crash on hover'', ''1'', ''1'', ''1'', ''1'', ''n'', ''y''],
        IssueWizard_init test_registry))
   \<and> Unlinked ''/tmp/tmpk3v9.md'' \<in> set (events (run (demo_world (Raised FileNotFoundError)
          (Exited 0)
          [''Crash on hover'', ''1'', ''1'', ''1'', ''1'', ''n'', ''y''],
        IssueWizard_init test_registry)))"
  unfolding demo_gh_missing demo_eof_at_confirmation demo_editor_missing
  by (simp add: ending_def body_file_exists_def events_def)

section \<open>The selected labels\<close>

lemma step_grows:
  assumes "step \<in> {capture_title, select_single c, select_multiple c, optional_flags,
                    create_body, submit, run}"
    and "step (w, z) = Some (st, w', z')"
  shows "grows z z'"
proof -
  from assms(1) consider "step = capture_title" | "step = select_single c"
    | "step = select_multiple c" | "step = optional_flags" | "step = create_body"
    | "step = submit" | "step = run" by blast
  then show ?thesis
  proof cases
    case 1 with assms(2) pre_step_frames(1) [of w z st w' z'] show ?thesis by simp
  next
    case 2 with assms(2) pre_step_frames(2) [of c w z st w' z'] show ?thesis by simp
  next
    case 3 with assms(2) pre_step_frames(3) [of c w z st w' z'] show ?thesis by simp
  next
    case 4 with assms(2) pre_step_frames(4) [of w z st w' z'] show ?thesis by simp
  next
    case 5 with assms(2) create_body_frame [of w z st w' z'] show ?thesis by auto
  next
    case 6 with assms(2) submit_frame [of w z st w' z'] show ?thesis by auto
  next
    case 7 with assms(2) run_grows [of w z st w' z'] show ?thesis by simp
  qed
qed

lemma grows_invariant:
  assumes "grows z z'" and "set (selected_labels z) \<subseteq> name ` set (labels (registry z))"
  shows "set (selected_labels z') \<subseteq> name ` set (labels (registry z'))"
  using assms by auto

text \<open>
  C8. Every step of a run keeps the registry and only appends to the selected labels, and
  what it appends are names of labels of the registry; for a selection step over a category
  they are names from that category's option list. So a wizard whose selected labels are all
  names of the registry stays so after every step and after the whole run, and a run started
  from a fresh wizard ends with selected labels that are names of the registry.
\<close>

theorem selected_labels_within_registry:
  "(select_single c (w, z) = Some (st, w', z') \<longrightarrow>
      registry z' = registry z \<and>
      (\<exists>added. selected_labels z' = selected_labels z @ added \<and>
         set added \<subseteq> name ` set (get_by_category (registry z) c)))
   \<and> (select_multiple c (w, z) = Some (st, w', z') \<longrightarrow>
      registry z' = registry z \<and>
      (\<exists>added. selected_labels z' = selected_labels z @ added \<and>
         set added \<subseteq> name ` set (get_by_category (registry z) c)))
   \<and> (step \<in> {capture_title, select_single c, select_multiple c, optional_flags,
                create_body, submit, run} \<and>
       step (w, z) = Some (st, w', z') \<longrightarrow>
      registry z' = registry z \<and>
      (\<exists>added. selected_labels z' = selected_labels z @ added \<and>
         set added \<subseteq> name ` set (labels (registry z))) \<and>
      (set (selected_labels z) \<subseteq> name ` set (labels (registry z)) \<longrightarrow>
       set (selected_labels z') \<subseteq> name ` set (labels (registry z'))))
   \<and> (run (w, IssueWizard_init reg) = Some (st, w', z') \<longrightarrow>
      set (selected_labels z') \<subseteq> name ` set (labels reg))"
proof -
  have a: "select_single c (w, z) = Some (st, w', z') \<longrightarrow>
      registry z' = registry z \<and>
      (\<exists>added. selected_labels z' = selected_labels z @ added \<and>
         set added \<subseteq> name ` set (get_by_category (registry z) c))"
    using select_single_frame [of c w z st w' z'] by blast
  have b: "select_multiple c (w, z) = Some (st, w', z') \<longrightarrow>
      registry z' = registry z \<and>
      (\<exists>added. selected_labels z' = selected_labels z @ added \<and>
         set added \<subseteq> name ` set (get_by_category (registry z) c))"
    using select_multiple_frame [of c w z st w' z'] by blast
  have c: "step \<in> {capture_title, select_single c, select_multiple c, optional_flags,
                create_body, submit, run} \<and>
       step (w, z) = Some (st, w', z') \<longrightarrow>
      registry z' = registry z \<and>
      (\<exists>added. selected_labels z' = selected_labels z @ added \<and>
         set added \<subseteq> name ` set (labels (registry z))) \<and>
      (set (selected_labels z) \<subseteq> name ` set (labels (registry z)) \<longrightarrow>
       set (selected_labels z') \<subseteq> name ` set (labels (registry z')))"
  proof
    assume h: "step \<in> {capture_title, select_single c, select_multiple c, optional_flags,
                create_body, submit, run} \<and> step (w, z) = Some (st, w', z')"
    then have g: "grows z z'" using step_grows [of step c w z st w' z'] by blast
    with grows_invariant [OF g] show "registry z' = registry z \<and>
      (\<exists>added. selected_labels z' = selected_labels z @ added \<and>
         set added \<subseteq> name ` set (labels (registry z))) \<and>
      (set (selected_labels z) \<subseteq> name ` set (labels (registry z)) \<longrightarrow>
       set (selected_labels z') \<subseteq> name ` set (labels (registry z')))" by blast
  qed
  have d: "run (w, IssueWizard_init reg) = Some (st, w', z') \<longrightarrow>
      set (selected_labels z') \<subseteq> name ` set (labels reg)"
  proof
    assume "run (w, IssueWizard_init reg) = Some (st, w', z')"
    from run_grows [OF this] show "set (selected_labels z') \<subseteq> name ` set (labels reg)"
      by (auto simp: IssueWizard_init_def)
  qed
  from a b c d show ?thesis by (intro conjI)
qed

theorem selected_labels_within_registry_witness:
  "chosen (run (demo_world (Exited 0) (Exited 0)
          [''  '', ''Crash on hover'', ''x'', ''1'', '''', ''1'', ''1'', ''yes'', ''1'', ''Y''],
        IssueWizard_init test_registry))
     = [''bug'', ''P1-must'', ''size/S'', ''good-first-issue'']
   \<and> set [''bug'', ''P1-must'', ''size/S'', ''good-first-issue'']
       \<subseteq> name ` set (labels test_registry)"
  using selected_labels_within_registry
    [of TYPE' _ _ Submitted _ _ run test_registry, THEN conjunct2, THEN conjunct2,
     THEN conjunct2, rule_format, OF demo_submitted]
  unfolding demo_submitted
  by (simp add: chosen_def)

end
